theory Spec2Isabelle
  imports Complex_Main "HOL-Library.AList"
begin

section \<open>Python values\<close>

text \<open>
  The detection code is Python 2. A series element is an \<open>int\<close> or a \<open>float\<close>; the two
  differ under \<open>/\<close> (two ints divide by flooring), so both are kept. Floats are idealised
  as real numbers. Exceptions are values of \<open>py_error\<close>; a function that can raise returns
  \<open>py_error + 'a\<close>.
\<close>

datatype py_error = IndexError | KeyError | ValueError | ZeroDivisionError | TypeError

datatype pynum = PInt int | PFloat real

fun val :: "pynum \<Rightarrow> real" where
  "val (PInt i) = of_int i"
| "val (PFloat r) = r"

fun py_add :: "pynum \<Rightarrow> pynum \<Rightarrow> pynum" where
  "py_add (PInt a) (PInt b) = PInt (a + b)"
| "py_add a b = PFloat (val a + val b)"

fun py_div :: "pynum \<Rightarrow> pynum \<Rightarrow> py_error + pynum" where
  "py_div (PInt a) (PInt b) = (if b = 0 then Inl ZeroDivisionError else Inr (PInt (a div b)))"
| "py_div a b = (if val b = 0 then Inl ZeroDivisionError else Inr (PFloat (val a / val b)))"

text \<open>\<open>max(xs)\<close> over the numeric values; \<open>ValueError\<close> on an empty sequence.\<close>

fun py_max :: "real list \<Rightarrow> py_error + real" where
  "py_max [] = Inl ValueError"
| "py_max (x # xs) = Inr (fold max xs x)"

text \<open>
  \<open>np.std\<close>: the population standard deviation. On an empty array numpy returns
  \<open>nan\<close> (with a warning), here \<open>None\<close>; every comparison with \<open>nan\<close> is false.
\<close>

definition np_mean :: "real list \<Rightarrow> real" where
  "np_mean xs = sum_list xs / real (length xs)"

definition np_var :: "real list \<Rightarrow> real" where
  "np_var xs = sum_list (map (\<lambda>x. (x - np_mean xs)\<^sup>2) xs) / real (length xs)"

definition np_std :: "real list \<Rightarrow> real option" where
  "np_std xs = (if xs = [] then None else Some (sqrt (np_var xs)))"

text \<open>A loop whose body can raise: the first exception ends it.\<close>

fun foldM :: "('a \<Rightarrow> 's \<Rightarrow> py_error + 's) \<Rightarrow> 'a list \<Rightarrow> 's \<Rightarrow> py_error + 's" where
  "foldM f [] s = Inr s"
| "foldM f (x # xs) s = (case f x s of Inl e \<Rightarrow> Inl e | Inr s' \<Rightarrow> foldM f xs s')"

section \<open>FindPeaks\<close>

definition MIN_NB_DAYS :: nat where
  "MIN_NB_DAYS = 31"

definition MAX_NB_ZERO_TO_RM :: nat where
  "MAX_NB_ZERO_TO_RM = 5"

text \<open>
  The instance attributes of \<open>FindPeaks\<close>. \<open>peak_min_value\<close> keeps its Python type
  because \<open>speculate_missing_values\<close> halves it with \<open>/\<close>; of the other parameters
  only the numeric value is ever used.
\<close>

record FindPeaks =
  data :: "pynum list"
  max_value :: real
  big_maxes :: "nat list"
  peak_min_value :: pynum
  max_nb_peaks :: real
  percent_sim :: real
  percent_std :: real

text \<open>\<open>FindPeaks.__init__\<close>: \<open>max(self.data)\<close> raises on an empty series.\<close>

definition FindPeaks_init ::
  "pynum list \<Rightarrow> pynum \<Rightarrow> real \<Rightarrow> real \<Rightarrow> real \<Rightarrow> py_error + FindPeaks" where
  "FindPeaks_init d pmv nb sim std =
     (case py_max (map val d) of
        Inl e \<Rightarrow> Inl e
      | Inr m \<Rightarrow> Inr \<lparr>data = d, max_value = m, big_maxes = [], peak_min_value = pmv,
                     max_nb_peaks = nb, percent_sim = sim, percent_std = std\<rparr>)"

subsection \<open>Smoothing of missing values\<close>

text \<open>
  \<open>_find_mock_value\<close>: \<open>hint if abs(hint - avg) < self.peak_min_value / 2 else avg\<close>.
  \<open>avg\<close> is always a float; the halving of an int \<open>peak_min_value\<close> floors.
\<close>

definition find_mock_value :: "pynum \<Rightarrow> pynum \<Rightarrow> real \<Rightarrow> pynum" where
  "find_mock_value pmv hint avg =
     (case py_div pmv (PInt 2) of
        Inr h \<Rightarrow> (if \<bar>val hint - avg\<bar> < val h then hint else PFloat avg)
      | Inl e \<Rightarrow> PFloat avg)"

definition count_zero :: "pynum list \<Rightarrow> nat" where
  "count_zero d = length (filter (\<lambda>x. val x = 0) d)"

text \<open>
  One iteration of \<open>for i, value in enumerate(self.data)\<close>. The list is updated in place,
  so \<open>self.data[i - 1]\<close> reads a value an earlier iteration may have replaced.
\<close>

definition speculate_step :: "pynum \<Rightarrow> real \<Rightarrow> nat \<Rightarrow> pynum list \<Rightarrow> py_error + pynum list" where
  "speculate_step pmv avg i d =
     (if val (d ! i) = 0 then
        (if i = 0 then
           (if 1 < length d then Inr (d[i := find_mock_value pmv (d ! (i + 1)) avg])
            else Inl IndexError)
         else if i = length d - 1 then
           Inr (d[i := find_mock_value pmv (d ! (i - 1)) avg])
         else
           (let next_v = find_mock_value pmv (d ! (i + 1)) avg;
                prev_v = find_mock_value pmv (d ! (i - 1)) avg
            in case py_div (py_add prev_v next_v) (PInt 2) of
                 Inl e \<Rightarrow> Inl e
               | Inr v \<Rightarrow> Inr (d[i := v])))
      else Inr d)"

text \<open>
  \<open>speculate_missing_values\<close> returns nothing and changes \<open>self.data\<close>; the model
  returns the new \<open>self.data\<close>. The average of the non-zero values divides by their
  number, which is zero when every value is zero.
\<close>

definition speculate_missing_values :: "pynum \<Rightarrow> pynum list \<Rightarrow> py_error + pynum list" where
  "speculate_missing_values pmv d =
     (if \<not> (0 < count_zero d \<and> count_zero d < MAX_NB_ZERO_TO_RM) then Inr d
      else
        (let data_with_no_zero = filter (\<lambda>elt. val elt \<noteq> 0) d
         in if length data_with_no_zero = 0 then Inl ZeroDivisionError
            else
              (let avg = sum_list (map val data_with_no_zero) / real (length data_with_no_zero)
               in foldM (speculate_step pmv avg) [0..<length d] d)))"

subsection \<open>Peak detection\<close>

definition is_big_enough :: "FindPeaks \<Rightarrow> real \<Rightarrow> real \<Rightarrow> bool" where
  "is_big_enough self up down \<longleftrightarrow> up > val (peak_min_value self) \<and> - down > val (peak_min_value self)"

definition has_few_enough_peaks :: "FindPeaks \<Rightarrow> nat \<Rightarrow> nat list \<Rightarrow> bool" where
  "has_few_enough_peaks self index local_maxes_indexes \<longleftrightarrow>
     (let similar_values = filter (\<lambda>elt. val (data self ! elt) \<ge> val (data self ! index))
                                  local_maxes_indexes
      in real (length similar_values) \<le> max_nb_peaks self)"

definition is_close_to_abs_max :: "FindPeaks \<Rightarrow> nat \<Rightarrow> bool" where
  "is_close_to_abs_max self index \<longleftrightarrow>
     val (data self ! index) \<ge> percent_sim self * max_value self"

definition check_std_variation :: "FindPeaks \<Rightarrow> nat list \<Rightarrow> bool" where
  "check_std_variation self indexes_to_check =
     (let smooth_data = map snd (filter (\<lambda>(i, elt). i \<notin> set indexes_to_check)
                                        (enumerate 0 (data self)))
      in case (np_std (map val (data self)), np_std (map val smooth_data)) of
           (Some std, Some smooth_std) \<Rightarrow> smooth_std < std * percent_std self
         | _ \<Rightarrow> False)"

text \<open>
  The body of the loop of \<open>get_big_maxes\<close> at index \<open>i\<close>, on the loop state
  \<open>(prev_variation, big_maxes)\<close>.
\<close>

definition big_maxes_step :: "FindPeaks \<Rightarrow> nat \<Rightarrow> real \<times> nat list \<Rightarrow> real \<times> nat list" where
  "big_maxes_step self i st =
     (let prev_variation = fst st;
          big_maxes = snd st;
          prev_val = val (data self ! (i - 1));
          cur_val = val (data self ! i);
          next_val = val (data self ! (i + 1));
          cur_variation = next_val - cur_val
      in (cur_variation,
          if cur_val > prev_val \<and> cur_val > next_val then
            (if is_big_enough self prev_variation cur_variation \<and> is_close_to_abs_max self i
             then big_maxes @ [i] else big_maxes)
          else big_maxes))"

text \<open>
  The loop \<open>for i in xrange(1, data_len - 1)\<close> run up to (excluding) index \<open>n\<close>, from
  the seed \<open>prev_variation = self.data[1] - self.data[0]\<close>.
\<close>

definition big_maxes_loop :: "FindPeaks \<Rightarrow> nat \<Rightarrow> real \<times> nat list" where
  "big_maxes_loop self n =
     fold (big_maxes_step self) [1..<n] (val (data self ! 1) - val (data self ! 0), [])"

definition prev_variation_at :: "FindPeaks \<Rightarrow> nat \<Rightarrow> real" where
  "prev_variation_at self i = fst (big_maxes_loop self i)"

definition candidates :: "FindPeaks \<Rightarrow> nat list" where
  "candidates self = snd (big_maxes_loop self (length (data self) - 1))"

definition few_enough :: "FindPeaks \<Rightarrow> nat list \<Rightarrow> nat list" where
  "few_enough self idxs = filter (\<lambda>i. has_few_enough_peaks self i idxs) idxs"

text \<open>
  \<open>get_big_maxes\<close> stores the peaks in \<open>self.big_maxes\<close> and returns that attribute;
  the model returns the updated object. Reading \<open>self.data[1]\<close> raises on a series
  of fewer than two values.
\<close>

definition get_big_maxes :: "FindPeaks \<Rightarrow> py_error + FindPeaks" where
  "get_big_maxes self =
     (if length (data self) < 2 then Inl IndexError
      else
        (let big_maxes = few_enough self (candidates self)
         in if big_maxes = [] \<or> check_std_variation self big_maxes
            then Inr (self\<lparr>big_maxes := big_maxes\<rparr>)
            else Inr self))"

text \<open>
  The magnitude rule and the crowding rule in the words of the specification, for
  comparison with the code: \<open>nb_other_similar\<close> counts the indices of \<open>idxs\<close> other than
  \<open>i\<close> whose value is at least the value at \<open>i\<close>.
\<close>

definition spec_magnitude :: "FindPeaks \<Rightarrow> nat \<Rightarrow> bool" where
  "spec_magnitude self i \<longleftrightarrow>
     val (data self ! i) - val (data self ! (i - 1)) > val (peak_min_value self) \<and>
     val (data self ! i) - val (data self ! (i + 1)) > val (peak_min_value self)"

definition spec_local_max :: "FindPeaks \<Rightarrow> nat \<Rightarrow> bool" where
  "spec_local_max self i \<longleftrightarrow>
     val (data self ! i) > val (data self ! (i - 1)) \<and>
     val (data self ! i) > val (data self ! (i + 1))"

definition nb_other_similar :: "FindPeaks \<Rightarrow> nat list \<Rightarrow> nat \<Rightarrow> nat" where
  "nb_other_similar self idxs i =
     length (filter (\<lambda>j. j \<noteq> i \<and> val (data self ! j) \<ge> val (data self ! i)) idxs)"

definition three_equal_peaks :: FindPeaks where
  "three_equal_peaks =
     \<lparr>data = [PInt 5, PInt 25, PInt 5, PInt 25, PInt 5, PInt 25, PInt 5], max_value = 25,
      big_maxes = [], peak_min_value = PInt 10, max_nb_peaks = 2, percent_sim = 9 / 10,
      percent_std = 9 / 10\<rparr>"

text \<open>Rules (1) to (3) of the specification's acceptance predicate, at one index.\<close>

definition spec_candidate :: "FindPeaks \<Rightarrow> nat \<Rightarrow> bool" where
  "spec_candidate self i \<longleftrightarrow>
     spec_local_max self i \<and> spec_magnitude self i \<and> is_close_to_abs_max self i"

section \<open>Dictionaries\<close>

text \<open>
  A Python dictionary is an association list with distinct keys; the order of the list
  stands for the iteration order of the dictionary, which Python 2 leaves unspecified.
  \<open>d[k] = v\<close> is \<open>AList.update k v d\<close> and \<open>del d[k]\<close> is \<open>AList.delete k d\<close>.
\<close>

type_synonym ('k, 'v) dict = "('k \<times> 'v) list"

definition bind_err :: "py_error + 'a \<Rightarrow> ('a \<Rightarrow> py_error + 'b) \<Rightarrow> py_error + 'b" where
  "bind_err m f = (case m of Inl e \<Rightarrow> Inl e | Inr x \<Rightarrow> f x)"

definition dict_get :: "('k, 'v) dict \<Rightarrow> 'k \<Rightarrow> py_error + 'v" where
  "dict_get d k = (case map_of d k of None \<Rightarrow> Inl KeyError | Some v \<Rightarrow> Inr v)"

definition dict_del :: "('k, 'v) dict \<Rightarrow> 'k \<Rightarrow> py_error + ('k, 'v) dict" where
  "dict_del d k = (case map_of d k of None \<Rightarrow> Inl KeyError | Some v \<Rightarrow> Inr (AList.delete k d))"

definition dict_get_default :: "('k, 'v) dict \<Rightarrow> 'k \<Rightarrow> 'v \<Rightarrow> 'v" where
  "dict_get_default d k dflt = (case map_of d k of None \<Rightarrow> dflt | Some v \<Rightarrow> v)"

definition keys :: "('k, 'v) dict \<Rightarrow> 'k list" where
  "keys d = map fst d"

section \<open>The leak detector\<close>

type_synonym asn = nat
type_synonym series = "pynum list"
type_synonym store = "(asn, series) dict"
type_synonym peaks = "(asn, nat list) dict"

text \<open>
  A day of a leak record: the raw index when no start date is known, else the
  date \<open>start + i\<close> days. The formatting is the \<open>datetime\<close> library's; the date is kept
  as the pair of the start date and the offset.
\<close>

datatype leak_day = Day_index nat | Day_date string nat

record leak_record =
  leaks :: "leak_day list"
  leak_pfx_data :: series
  leak_cfl_data :: series

type_synonym route_leaks = "(asn, leak_record) dict"

text \<open>
  The attributes set by \<open>_BaseFindRouteLeaks.__init__\<close>. The stores are taken as already
  loaded; \<open>params\<close> is \<open>self._params\<close>, whose values are floats.
\<close>

record BaseFindRouteLeaks =
  params :: "(string, real) dict"
  pfx_data :: store
  cfl_data :: store
  start :: "string option"

record PyFindRouteLeaks = BaseFindRouteLeaks +
  pfx_dupl_ases :: "(asn, asn list) dict"
  cfl_dupl_ases :: "(asn, asn list) dict"
  pfx_unique_data :: store
  cfl_unique_data :: store

definition init_params :: "pynum \<Rightarrow> pynum \<Rightarrow> pynum \<Rightarrow> pynum \<Rightarrow> pynum \<Rightarrow> (string, real) dict" where
  "init_params pfx_min cfl_min nb sim std =
     [(''pfx_peak_min_value'', val pfx_min),
      (''cfl_peak_min_value'', val cfl_min),
      (''max_nb_peaks'', val nb),
      (''percent_similarity'', val sim),
      (''percent_std'', val std)]"

definition default_params :: "(string, real) dict" where
  "default_params = init_params (PInt 10) (PInt 5) (PInt 2) (PFloat (9 / 10)) (PFloat (9 / 10))"

text \<open>
  The start setter chooses \<open>_map_leaks_indexes\<close>: the identity when the start date is
  \<open>None\<close> or empty, the mapping to dates otherwise. A date is kept as the start date and
  the number of days to add; the start date is taken to be written in \<open>format_date\<close>, so
  the \<open>ValueError\<close> of \<open>strptime\<close> on another string is not modelled.
\<close>

definition map_leaks_indexes :: "string option \<Rightarrow> nat list \<Rightarrow> leak_day list" where
  "map_leaks_indexes st leaks_indexes =
     (case st of
        None \<Rightarrow> map Day_index leaks_indexes
      | Some s \<Rightarrow> (if s = [] then map Day_index leaks_indexes
                   else map (Day_date s) leaks_indexes))"

subsection \<open>Duplicate series\<close>

text \<open>
  One iteration of \<open>_fill_duplicates_struct\<close> over \<open>data.keys()\<close>, on the state
  \<open>(reversed_data, dupl_ases, data)\<close>. The key \<open>tuple(data[asn])\<close> compares by numeric
  value (\<open>5 == 5.0\<close>), hence \<open>map val\<close>.
\<close>

definition fill_duplicates_step ::
  "asn \<Rightarrow> (real list, asn) dict \<times> (asn, asn list) dict \<times> store
       \<Rightarrow> py_error + (real list, asn) dict \<times> (asn, asn list) dict \<times> store" where
  "fill_duplicates_step a st =
     (case st of (reversed_data, dupl_ases, d) \<Rightarrow>
        (case map_of d a of
           None \<Rightarrow> Inl KeyError
         | Some s \<Rightarrow>
             (let series = map val s
              in case map_of reversed_data series of
                   Some base_asn \<Rightarrow>
                     Inr (reversed_data,
                          AList.update base_asn (dict_get_default dupl_ases base_asn [] @ [a])
                            dupl_ases,
                          AList.delete a d)
                 | None \<Rightarrow> Inr (AList.update series a reversed_data, dupl_ases, d))))"

definition fill_duplicates_struct ::
  "(asn, asn list) dict \<Rightarrow> store \<Rightarrow> py_error + (asn, asn list) dict \<times> store" where
  "fill_duplicates_struct dupl_ases d =
     bind_err (foldM fill_duplicates_step (keys d) ([], dupl_ases, d)) (\<lambda>st. Inr (snd st))"

definition PyFindRouteLeaks_init ::
  "store \<Rightarrow> store \<Rightarrow> pynum \<Rightarrow> pynum \<Rightarrow> pynum \<Rightarrow> pynum \<Rightarrow> pynum \<Rightarrow> string option
     \<Rightarrow> py_error + PyFindRouteLeaks" where
  "PyFindRouteLeaks_init pfx cfl pfx_min cfl_min nb sim std st =
     bind_err (fill_duplicates_struct [] pfx) (\<lambda>pd.
     bind_err (fill_duplicates_struct [] cfl) (\<lambda>cd.
       Inr \<lparr>params = init_params pfx_min cfl_min nb sim std, pfx_data = pfx, cfl_data = cfl,
            start = st, pfx_dupl_ases = fst pd, cfl_dupl_ases = fst cd,
            pfx_unique_data = snd pd, cfl_unique_data = snd cd\<rparr>))"

subsection \<open>Peaks of every AS\<close>

text \<open>
  \<open>FindPeaks(series, **params)\<close>: an unexpected keyword is a \<open>TypeError\<close>, a missing one
  takes the default of \<open>FindPeaks.__init__\<close>.
\<close>

definition FindPeaks_kwargs :: "series \<Rightarrow> (string, real) dict \<Rightarrow> py_error + FindPeaks" where
  "FindPeaks_kwargs d kw =
     (if \<not> list_all (\<lambda>k. k \<in> set [''peak_min_value'', ''max_nb_peaks'', ''percent_similarity'',
                                     ''percent_std'']) (keys kw)
      then Inl TypeError
      else FindPeaks_init d
             (case map_of kw ''peak_min_value'' of None \<Rightarrow> PInt 10 | Some v \<Rightarrow> PFloat v)
             (dict_get_default kw ''max_nb_peaks'' 2)
             (dict_get_default kw ''percent_similarity'' (9 / 10))
             (dict_get_default kw ''percent_std'' (9 / 10)))"

text \<open>The peaks that \<open>_get_ases_with_peak\<close> records for one series, if any.\<close>

definition series_peaks :: "series \<Rightarrow> (string, real) dict \<Rightarrow> py_error + nat list" where
  "series_peaks s kw =
     bind_err (FindPeaks_kwargs s kw) (\<lambda>peak_finder.
       if max_value peak_finder \<ge> val (peak_min_value peak_finder) then
         bind_err (get_big_maxes peak_finder) (\<lambda>pf. Inr (big_maxes pf))
       else Inr [])"

definition get_ases_with_peak_step ::
  "store \<Rightarrow> (string, real) dict \<Rightarrow> asn \<Rightarrow> peaks \<Rightarrow> py_error + peaks" where
  "get_ases_with_peak_step plotable_dict kw a pk =
     bind_err (dict_get plotable_dict a) (\<lambda>s.
     bind_err (series_peaks s kw) (\<lambda>bm.
       if bm \<noteq> [] then Inr (AList.update a bm pk) else Inr pk))"

definition get_ases_with_peak :: "store \<Rightarrow> (string, real) dict \<Rightarrow> py_error + peaks" where
  "get_ases_with_peak plotable_dict kw =
     foldM (get_ases_with_peak_step plotable_dict kw) (keys plotable_dict) []"

text \<open>The keyword dictionary \<open>find_pfx_n_cfl_peaks\<close> builds for one side.\<close>

definition peak_params :: "(string, real) dict \<Rightarrow> string \<Rightarrow> py_error + (string, real) dict" where
  "peak_params p name =
     bind_err (dict_del p ''pfx_peak_min_value'') (\<lambda>p1.
     bind_err (dict_del p1 ''cfl_peak_min_value'') (\<lambda>p2.
     bind_err (dict_get p name) (\<lambda>v.
       Inr (AList.update ''peak_min_value'' v p2))))"

definition find_pfx_n_cfl_peaks :: "PyFindRouteLeaks \<Rightarrow> py_error + peaks \<times> peaks" where
  "find_pfx_n_cfl_peaks self =
     bind_err (peak_params (params self) ''pfx_peak_min_value'') (\<lambda>pp.
     bind_err (get_ases_with_peak (pfx_unique_data self) pp) (\<lambda>pfx_peaks.
     bind_err (peak_params (params self) ''cfl_peak_min_value'') (\<lambda>cp.
     bind_err (get_ases_with_peak (cfl_unique_data self) cp) (\<lambda>cfl_peaks.
       Inr (pfx_peaks, cfl_peaks)))))"

text \<open>
  \<open>_put_duplicates_back_to_peaks\<close>, for one side: the outer loop runs over the keys the
  dictionary has when the loop starts.
\<close>

definition put_back_step :: "asn \<Rightarrow> asn \<Rightarrow> peaks \<Rightarrow> py_error + peaks" where
  "put_back_step a dupl_asn pk =
     bind_err (dict_get pk a) (\<lambda>v. Inr (AList.update dupl_asn v pk))"

definition put_duplicates_back :: "(asn, asn list) dict \<Rightarrow> peaks \<Rightarrow> py_error + peaks" where
  "put_duplicates_back dupl_ases pk =
     foldM (\<lambda>a. foldM (put_back_step a) (dict_get_default dupl_ases a [])) (keys pk) pk"

subsection \<open>Synchronised peaks\<close>

text \<open>
  \<open>self._params[param_name] = float(param_value)\<close> for a known name; an unknown name is
  only logged.
\<close>

definition set_known_param :: "string \<times> pynum \<Rightarrow> (string, real) dict \<Rightarrow> (string, real) dict" where
  "set_known_param kv p =
     (if fst kv \<in> set (keys p) then AList.update (fst kv) (val (snd kv)) p else p)"

text \<open>
  One iteration of \<open>for asn in cfl_peaks\<close>. The order in which \<open>list(set(..) & set(..))\<close>
  lists the common indices is not fixed by Python; the model lists them as they stand in
  the conflict peaks.
\<close>

definition route_leaks_step ::
  "'a BaseFindRouteLeaks_scheme \<Rightarrow> peaks \<Rightarrow> peaks \<Rightarrow> asn \<Rightarrow> route_leaks \<Rightarrow> py_error + route_leaks"
  where
  "route_leaks_step self pfx_peaks cfl_peaks a rl =
     (case map_of pfx_peaks a of
        None \<Rightarrow> Inr rl
      | Some pp \<Rightarrow>
          bind_err (dict_get cfl_peaks a) (\<lambda>cp.
            (let lks = filter (\<lambda>i. i \<in> set pp) cp
             in if lks \<noteq> [] then
                  bind_err (dict_get (pfx_data self) a) (\<lambda>pd.
                  bind_err (dict_get (cfl_data self) a) (\<lambda>cd.
                    Inr (AList.update a
                           \<lparr>leaks = map_leaks_indexes (start self) lks, leak_pfx_data = pd,
                            leak_cfl_data = cd\<rparr> rl)))
                else Inr rl)))"

text \<open>
  \<open>_PyFindRouteLeaks.get_route_leaks\<close>. The first argument is the current value of the
  module variable \<open>MIN_NB_DAYS\<close> (31 in the source; the tests assign 3). The result is
  the detector after the call and what the call returns or raises.
\<close>

definition get_route_leaks ::
  "nat \<Rightarrow> PyFindRouteLeaks \<Rightarrow> (string, pynum) dict
     \<Rightarrow> PyFindRouteLeaks \<times> (py_error + route_leaks)" where
  "get_route_leaks min_nb_days self kwargs =
     (case map snd (pfx_data self) of
        [] \<Rightarrow> (self, Inl IndexError)
      | s # _ \<Rightarrow>
          if length s < min_nb_days then (self, Inr [])
          else
            (let self' = self\<lparr>params := fold set_known_param kwargs (params self)\<rparr>
             in (self',
                 bind_err (find_pfx_n_cfl_peaks self') (\<lambda>pc.
                 bind_err (put_duplicates_back (pfx_dupl_ases self') (fst pc)) (\<lambda>pfx_peaks.
                 bind_err (put_duplicates_back (cfl_dupl_ases self') (snd pc)) (\<lambda>cfl_peaks.
                   foldM (route_leaks_step self' pfx_peaks cfl_peaks) (keys cfl_peaks) []))))))"

subsection \<open>The detector backed by the Rust library\<close>

text \<open>
  \<open>int(x)\<close> of a float truncates towards zero. \<open>xs[i]\<close> counts a negative index from
  the end.
\<close>

definition py_int :: "real \<Rightarrow> int" where
  "py_int x = (if 0 \<le> x then \<lfloor>x\<rfloor> else \<lceil>x\<rceil>)"

definition py_index :: "'a list \<Rightarrow> int \<Rightarrow> py_error + 'a" where
  "py_index xs i =
     (if 0 \<le> i \<and> i < int (length xs) then Inr (xs ! nat i)
      else if i < 0 \<and> - i \<le> int (length xs) then Inr (xs ! nat (int (length xs) + i))
      else Inl IndexError)"

record RuFindRouteLeaks = BaseFindRouteLeaks +
  aggregated_data :: "(asn list \<times> series \<times> series) list"

text \<open>
  \<open>_aggregate_data_for_rust\<close>: the ASes of both stores grouped by their pair of series.
  A group keeps the series of its first AS.
\<close>

definition aggregate_step ::
  "store \<Rightarrow> store \<Rightarrow> asn \<Rightarrow> (real list \<times> real list, (series \<times> series) \<times> asn list) dict
     \<Rightarrow> py_error + (real list \<times> real list, (series \<times> series) \<times> asn list) dict" where
  "aggregate_step pfx cfl a rev_aggr_data =
     bind_err (dict_get pfx a) (\<lambda>prefixes.
     bind_err (dict_get cfl a) (\<lambda>conflicts.
       (let key = (map val prefixes, map val conflicts)
        in case map_of rev_aggr_data key of
             None \<Rightarrow> Inr (AList.update key ((prefixes, conflicts), [a]) rev_aggr_data)
           | Some g \<Rightarrow> Inr (AList.update key (fst g, snd g @ [a]) rev_aggr_data))))"

definition aggregate_data_for_rust ::
  "store \<Rightarrow> store \<Rightarrow> py_error + (asn list \<times> series \<times> series) list" where
  "aggregate_data_for_rust pfx cfl =
     bind_err (foldM (aggregate_step pfx cfl) (filter (\<lambda>a. a \<in> set (keys cfl)) (keys pfx)) [])
       (\<lambda>rev_aggr_data. Inr (map (\<lambda>kv. (snd (snd kv), fst (snd kv))) rev_aggr_data))"

definition RuFindRouteLeaks_init ::
  "store \<Rightarrow> store \<Rightarrow> pynum \<Rightarrow> pynum \<Rightarrow> pynum \<Rightarrow> pynum \<Rightarrow> pynum \<Rightarrow> string option
     \<Rightarrow> py_error + RuFindRouteLeaks" where
  "RuFindRouteLeaks_init pfx cfl pfx_min cfl_min nb sim std st =
     bind_err (aggregate_data_for_rust pfx cfl) (\<lambda>aggr.
       Inr \<lparr>params = init_params pfx_min cfl_min nb sim std, pfx_data = pfx, cfl_data = cfl,
            start = st, aggregated_data = aggr\<rparr>)"

text \<open>
  The Rust function \<open>process_data\<close> of the \<open>deroleru\<close> extension is not part of the Python
  sources; it is a parameter of the model.
\<close>

type_synonym process_data_fn =
  "series \<Rightarrow> series \<Rightarrow> int \<Rightarrow> int \<Rightarrow> real \<Rightarrow> int \<Rightarrow> real \<Rightarrow> nat list"

definition call_rust_leak_detection ::
  "process_data_fn \<Rightarrow> series \<Rightarrow> series \<Rightarrow> (string, real) dict \<Rightarrow> py_error + nat list" where
  "call_rust_leak_detection process_data pfx cfl p =
     bind_err (dict_get p ''pfx_peak_min_value'') (\<lambda>pfx_min.
     bind_err (dict_get p ''cfl_peak_min_value'') (\<lambda>cfl_min.
     bind_err (dict_get p ''percent_similarity'') (\<lambda>sim.
     bind_err (dict_get p ''max_nb_peaks'') (\<lambda>nb.
     bind_err (dict_get p ''percent_std'') (\<lambda>std.
       Inr (process_data pfx cfl (py_int pfx_min) (py_int cfl_min) sim (py_int nb) std))))))"

definition ru_route_leaks_step ::
  "process_data_fn \<Rightarrow> RuFindRouteLeaks \<Rightarrow> asn list \<times> series \<times> series \<Rightarrow> route_leaks
     \<Rightarrow> py_error + route_leaks" where
  "ru_route_leaks_step process_data self g rl =
     bind_err (call_rust_leak_detection process_data (fst (snd g)) (snd (snd g)) (params self))
       (\<lambda>detection_res.
          if detection_res \<noteq> [] then
            (let details = \<lparr>leaks = map_leaks_indexes (start self) detection_res,
                            leak_pfx_data = fst (snd g), leak_cfl_data = snd (snd g)\<rparr>
             in Inr (fold (\<lambda>a. AList.update a details) (fst g) rl))
          else Inr rl)"

definition ru_get_route_leaks ::
  "process_data_fn \<Rightarrow> nat \<Rightarrow> RuFindRouteLeaks \<Rightarrow> (string, pynum) dict
     \<Rightarrow> RuFindRouteLeaks \<times> (py_error + route_leaks)" where
  "ru_get_route_leaks process_data min_nb_days self kwargs =
     (case map snd (pfx_data self) of
        [] \<Rightarrow> (self, Inl IndexError)
      | s # _ \<Rightarrow>
          if length s < min_nb_days then (self, Inr [])
          else
            (let self' = self\<lparr>params := fold set_known_param kwargs (params self)\<rparr>
             in (self', foldM (ru_route_leaks_step process_data self') (aggregated_data self') [])))"

section \<open>The parameter fitter\<close>

text \<open>
  A \<open>ParamValue\<close> object: the class attributes \<open>_param_name\<close> and \<open>selective_index\<close> of
  the subclass the factory picked.
\<close>

record ParamValue =
  param_name :: string
  selective_index :: nat

definition ParamValue_subclasses :: "ParamValue list" where
  "ParamValue_subclasses =
     [\<lparr>param_name = ''pfx_peak_min_value'', selective_index = 1\<rparr>,
      \<lparr>param_name = ''cfl_peak_min_value'', selective_index = 1\<rparr>,
      \<lparr>param_name = ''percent_similarity'', selective_index = 1\<rparr>,
      \<lparr>param_name = ''max_nb_peaks'', selective_index = 0\<rparr>,
      \<lparr>param_name = ''percent_std'', selective_index = 0\<rparr>]"

definition ParamValue_new :: "string \<Rightarrow> py_error + ParamValue" where
  "ParamValue_new name =
     (case find (\<lambda>sub. param_name sub = name) ParamValue_subclasses of
        Some sub \<Rightarrow> Inr sub
      | None \<Rightarrow> Inl ValueError)"

definition neutral_params :: "(string, real) dict" where
  "neutral_params =
     [(''cfl_peak_min_value'', 0), (''pfx_peak_min_value'', 0), (''percent_std'', 2),
      (''percent_similarity'', 0), (''max_nb_peaks'', 400)]"

definition lr_points :: "(string, real list) dict" where
  "lr_points =
     [(''cfl_peak_min_value'', map real [0..<50]),
      (''pfx_peak_min_value'', map real [0..<50]),
      (''percent_std'', map (\<lambda>elt. real elt / 10) [1..<11]),
      (''percent_similarity'', map (\<lambda>elt. real elt / 10) [1..<11]),
      (''max_nb_peaks'', map real [1..<51])]"

definition lin_reg_pts :: "ParamValue \<Rightarrow> py_error + real list" where
  "lin_reg_pts self = dict_get lr_points (param_name self)"

text \<open>
  \<open>_get_lr_score\<close> fits \<open>self.nb_leaks\<close> with scikit-learn and returns the coefficient of
  determination; the score of the segment from \<open>l_bound\<close> to \<open>u_bound\<close> is a parameter
  of the model. \<open>_get_3lr_res\<close> lists every pair of breaking points with the mean score
  of the three segments.
\<close>

definition get_3lr_res :: "(nat \<Rightarrow> nat \<Rightarrow> real) \<Rightarrow> nat \<Rightarrow> (real \<times> nat \<times> nat) list" where
  "get_3lr_res lr_score i3 =
     (let i0 = 1
      in concat (map (\<lambda>i1. map (\<lambda>i2. ((lr_score i0 i1 + lr_score i1 i2 + lr_score i2 i3) / 3,
                                       i1, i2))
                                [i1 + 2..<i3])
                     [i0 + 2..<i3]))"

text \<open>\<open>max(res, key=lambda x: x[0])\<close>: the first element of greatest key.\<close>

fun py_max_key :: "('a \<Rightarrow> real) \<Rightarrow> 'a list \<Rightarrow> py_error + 'a" where
  "py_max_key k [] = Inl ValueError"
| "py_max_key k (x # xs) = Inr (fold (\<lambda>y best. if k y > k best then y else best) xs x)"

definition best_case :: "(nat \<Rightarrow> nat \<Rightarrow> real) \<Rightarrow> real list \<Rightarrow> py_error + real \<times> nat \<times> nat" where
  "best_case lr_score pts = py_max_key fst (get_3lr_res lr_score (length pts))"

definition map_lr_value_to_real_value :: "real list \<Rightarrow> nat \<Rightarrow> py_error + real" where
  "map_lr_value_to_real_value pts lr_value = py_index pts (int lr_value - 1)"

definition get_param_optimized_values ::
  "(nat \<Rightarrow> nat \<Rightarrow> real) \<Rightarrow> ParamValue \<Rightarrow> py_error + real list" where
  "get_param_optimized_values lr_score self =
     bind_err (lin_reg_pts self) (\<lambda>pts.
     bind_err (best_case lr_score pts) (\<lambda>best.
     bind_err (map_lr_value_to_real_value pts (fst (snd best))) (\<lambda>v1.
     bind_err (map_lr_value_to_real_value pts (snd (snd best))) (\<lambda>v2.
       Inr [fst best, v1, v2]))))"

text \<open>
  \<open>FittedFindRouteLeaks.get_best_param_value\<close>, split at the object the factory
  returns. The warning on a score under 0.75 only logs.
\<close>

definition best_value_of ::
  "(nat \<Rightarrow> nat \<Rightarrow> real) \<Rightarrow> ParamValue \<Rightarrow> string \<Rightarrow> py_error + real" where
  "best_value_of lr_score param_selector param =
     bind_err (get_param_optimized_values lr_score param_selector) (\<lambda>lr_res.
       if param = ''percent_std'' then py_index lr_res (- 1)
       else py_index lr_res (int (selective_index param_selector) + 1))"

definition get_best_param_value :: "(nat \<Rightarrow> nat \<Rightarrow> real) \<Rightarrow> string \<Rightarrow> py_error + real" where
  "get_best_param_value lr_score param =
     bind_err (ParamValue_new param) (\<lambda>param_selector.
       best_value_of lr_score param_selector param)"

section \<open>The classifier's feature extraction\<close>




subsection \<open>Base data of one store\<close>











subsection \<open>Data of one AS\<close>








subsection \<open>Attribute makers\<close>




















subsection \<open>The input of the classifier\<close>

















section \<open>Notions used to state the properties\<close>

text \<open>
  The peak set of one series under the detector's parameters, as \<open>find_pfx_n_cfl_peaks\<close>
  computes it for the side whose minimum-value parameter is \<open>name\<close>.
\<close>

definition side_peaks :: "(string, real) dict \<Rightarrow> string \<Rightarrow> series \<Rightarrow> py_error + nat list" where
  "side_peaks p name s = bind_err (peak_params p name) (series_peaks s)"

text \<open>
  Every entry of a peaks dictionary holds the peaks of the series its AS has in the store.
\<close>

definition peaks_sound :: "store \<Rightarrow> (string, real) dict \<Rightarrow> peaks \<Rightarrow> bool" where
  "peaks_sound d kw pk \<longleftrightarrow>
     (\<forall>a v. map_of pk a = Some v \<longrightarrow> (\<exists>s. map_of d a = Some s \<and> series_peaks s kw = Inr v))"

text \<open>
  Every AS listed as a duplicate of a base AS is in the store, with a series numerically
  equal to the series of the base.
\<close>

definition dupl_sound :: "store \<Rightarrow> (asn, asn list) dict \<Rightarrow> bool" where
  "dupl_sound d dupl \<longleftrightarrow>
     (\<forall>b l a. map_of dupl b = Some l \<longrightarrow> a \<in> set l \<longrightarrow>
        (\<exists>s sb. map_of d a = Some s \<and> map_of d b = Some sb \<and> map val s = map val sb))"

definition unique_sound :: "store \<Rightarrow> store \<Rightarrow> bool" where
  "unique_sound d u \<longleftrightarrow> (\<forall>a s. map_of u a = Some s \<longrightarrow> map_of d a = Some s)"

definition rev_sound :: "store \<Rightarrow> (real list, asn) dict \<Rightarrow> bool" where
  "rev_sound d reversed_data \<longleftrightarrow>
     (\<forall>ser b. map_of reversed_data ser = Some b \<longrightarrow> (\<exists>sb. map_of d b = Some sb \<and> map val sb = ser))"

text \<open>
  Every leak record holds the indices common to the two peak lists of its AS, mapped to
  days, and the two series of the AS.
\<close>

definition leaks_sound ::
  "'a BaseFindRouteLeaks_scheme \<Rightarrow> peaks \<Rightarrow> peaks \<Rightarrow> route_leaks \<Rightarrow> bool" where
  "leaks_sound self pfx_peaks cfl_peaks rl \<longleftrightarrow>
     (\<forall>a r. map_of rl a = Some r \<longrightarrow>
        (\<exists>pp cp pd cd.
           map_of pfx_peaks a = Some pp \<and> map_of cfl_peaks a = Some cp \<and>
           map_of (pfx_data self) a = Some pd \<and> map_of (cfl_data self) a = Some cd \<and>
           filter (\<lambda>i. i \<in> set pp) cp \<noteq> [] \<and>
           r = \<lparr>leaks = map_leaks_indexes (start self) (filter (\<lambda>i. i \<in> set pp) cp),
                leak_pfx_data = pd, leak_cfl_data = cd\<rparr>))"

text \<open>The keys of \<open>self._params\<close>, in the order of \<open>init_params\<close>.\<close>

definition five_names :: "string list" where
  "five_names = [''pfx_peak_min_value'', ''cfl_peak_min_value'', ''max_nb_peaks'',
     ''percent_similarity'', ''percent_std'']"

section \<open>Concrete inputs\<close>

text \<open>Boundary scenario 1: one AS whose two series are \<open>[5, 5, 25, 5, 5, 5]\<close>.\<close>

definition scenario1_series :: series where
  "scenario1_series = [PInt 5, PInt 5, PInt 25, PInt 5, PInt 5, PInt 5]"

definition scenario1_store :: store where
  "scenario1_store = [(12322, scenario1_series)]"

definition scenario1_detector :: PyFindRouteLeaks where
  "scenario1_detector =
     \<lparr>params = default_params, pfx_data = scenario1_store, cfl_data = scenario1_store,
      start = None, pfx_dupl_ases = [], cfl_dupl_ases = [],
      pfx_unique_data = scenario1_store, cfl_unique_data = scenario1_store\<rparr>"

text \<open>
  A store of one AS with 31 days of zeros, and the detectors the two constructors build
  from it with the default parameters.
\<close>

definition flat31_store :: store where
  "flat31_store = [(12322, replicate 31 (PInt 0))]"

definition flat31_detector :: PyFindRouteLeaks where
  "flat31_detector =
     \<lparr>params = default_params, pfx_data = flat31_store, cfl_data = flat31_store,
      start = None, pfx_dupl_ases = [], cfl_dupl_ases = [],
      pfx_unique_data = flat31_store, cfl_unique_data = flat31_store\<rparr>"

definition flat31_ru_detector :: RuFindRouteLeaks where
  "flat31_ru_detector =
     \<lparr>params = default_params, pfx_data = flat31_store, cfl_data = flat31_store,
      start = None,
      aggregated_data = [([12322], replicate 31 (PInt 0), replicate 31 (PInt 0))]\<rparr>"

text \<open>The detectors the two constructors build from two empty stores.\<close>

definition empty_detector :: PyFindRouteLeaks where
  "empty_detector =
     \<lparr>params = default_params, pfx_data = [], cfl_data = [], start = None,
      pfx_dupl_ases = [], cfl_dupl_ases = [], pfx_unique_data = [], cfl_unique_data = []\<rparr>"

definition empty_ru_detector :: RuFindRouteLeaks where
  "empty_ru_detector =
     \<lparr>params = default_params, pfx_data = [], cfl_data = [], start = None,
      aggregated_data = []\<rparr>"

text \<open>Two peaks of equal height, and a series with five zeros.\<close>

definition two_equal_peaks :: FindPeaks where
  "two_equal_peaks =
     \<lparr>data = [PInt 5, PInt 5, PInt 25, PInt 5, PInt 25, PInt 5], max_value = 25,
      big_maxes = [], peak_min_value = PInt 10, max_nb_peaks = 2, percent_sim = 9 / 10,
      percent_std = 9 / 10\<rparr>"

definition five_zeros :: series where
  "five_zeros = [PInt 0, PInt 0, PInt 7, PInt 0, PInt 0, PInt 0]"

text \<open>
  Two ASes with the same pair of series (the duplicates of the tests), the detector the
  constructor builds from them, and the leak record of each.
\<close>

definition dupl_pfx_series :: series where
  "dupl_pfx_series = [PInt 5, PInt 5, PInt 16, PInt 5, PInt 15, PInt 5]"

definition dupl_cfl_series :: series where
  "dupl_cfl_series = [PInt 0, PInt 0, PInt 10, PInt 0, PInt 0, PInt 0]"

definition dupl_pfx_store :: store where
  "dupl_pfx_store = [(202214, dupl_pfx_series), (3215, dupl_pfx_series)]"

definition dupl_cfl_store :: store where
  "dupl_cfl_store = [(202214, dupl_cfl_series), (3215, dupl_cfl_series)]"

definition dupl_detector :: PyFindRouteLeaks where
  "dupl_detector =
     \<lparr>params = default_params, pfx_data = dupl_pfx_store, cfl_data = dupl_cfl_store,
      start = None, pfx_dupl_ases = [(202214, [3215])], cfl_dupl_ases = [(202214, [3215])],
      pfx_unique_data = [(202214, dupl_pfx_series)],
      cfl_unique_data = [(202214, dupl_cfl_series)]\<rparr>"

definition dupl_record :: leak_record where
  "dupl_record =
     \<lparr>leaks = [Day_index 2], leak_pfx_data = dupl_pfx_series, leak_cfl_data = dupl_cfl_series\<rparr>"

definition scenario1_record :: leak_record where
  "scenario1_record =
     \<lparr>leaks = [Day_index 2], leak_pfx_data = scenario1_series,
      leak_cfl_data = scenario1_series\<rparr>"

text \<open>A stand-in for the Rust function that never reports a leak.\<close>

definition no_leak_process_data :: process_data_fn where
  "no_leak_process_data pfx cfl pfx_min cfl_min sim nb std = []"

text \<open>A score that is the same for every segment.\<close>

definition flat_score :: "nat \<Rightarrow> nat \<Rightarrow> real" where
  "flat_score l_bound u_bound = 1"

section \<open>Properties of FindPeaks\<close>

lemma foldM_invariant:
  assumes "foldM f xs s = Inr s'" and "P s"
    and "\<And>x t t'. x \<in> set xs \<Longrightarrow> P t \<Longrightarrow> f x t = Inr t' \<Longrightarrow> P t'"
  shows "P s'"
  using assms
proof (induction xs arbitrary: s)
  case Nil
  then show ?case by simp
next
  case (Cons x xs)
  from Cons.prems(1) obtain t where t: "f x s = Inr t" and rest: "foldM f xs t = Inr s'"
    by (auto split: sum.splits)
  have pt: "P t" using Cons.prems(3) [of x s t] Cons.prems(2) t by simp
  have step: "\<And>y u u'. y \<in> set xs \<Longrightarrow> P u \<Longrightarrow> f y u = Inr u' \<Longrightarrow> P u'"
    by (rule Cons.prems(3)) simp_all
  show ?case by (rule Cons.IH [OF rest pt step])
qed

lemma bind_err_simps [simp]:
  "bind_err (Inr x) f = f x"
  "bind_err (Inl e) f = Inl e"
  by (simp_all add: bind_err_def)

lemma bind_err_Inr_iff: "bind_err m f = Inr y \<longleftrightarrow> (\<exists>x. m = Inr x \<and> f x = Inr y)"
  by (cases m) simp_all

lemma big_maxes_loop_Suc:
  "1 \<le> n \<Longrightarrow> big_maxes_loop self (Suc n) = big_maxes_step self n (big_maxes_loop self n)"
  by (simp add: big_maxes_loop_def)

lemma prev_variation_at_eq:
  "1 \<le> i \<Longrightarrow> prev_variation_at self i = val (data self ! i) - val (data self ! (i - 1))"
proof (induction i)
  case 0 then show ?case by simp
next
  case (Suc i)
  show ?case
  proof (cases "i = 0")
    case True
    then show ?thesis by (simp add: prev_variation_at_def big_maxes_loop_def)
  next
    case False
    then have "1 \<le> i" by simp
    then show ?thesis
      by (simp add: prev_variation_at_def big_maxes_loop_Suc big_maxes_step_def Let_def)
  qed
qed

lemma snd_big_maxes_loop:
  "snd (big_maxes_loop self n) = filter (spec_candidate self) [1..<n]"
proof (induction n)
  case 0 then show ?case by (simp add: big_maxes_loop_def)
next
  case (Suc n)
  show ?case
  proof (cases "n = 0")
    case True then show ?thesis by (simp add: big_maxes_loop_def)
  next
    case False
    then have n: "1 \<le> n" by simp
    have pv: "fst (big_maxes_loop self n) = val (data self ! n) - val (data self ! (n - 1))"
      using prev_variation_at_eq [OF n, of self] by (simp add: prev_variation_at_def)
    show ?thesis using n Suc.IH pv
      by (simp add: big_maxes_loop_Suc big_maxes_step_def Let_def spec_candidate_def
            spec_local_max_def spec_magnitude_def is_big_enough_def)
  qed
qed

lemma candidates_eq:
  "candidates self = filter (spec_candidate self) [1..<length (data self) - 1]"
  by (simp add: candidates_def snd_big_maxes_loop)

lemma candidates_bounds: "i \<in> set (candidates self) \<Longrightarrow> 0 < i \<and> i < length (data self) - 1"
  by (auto simp: candidates_eq)

lemma few_enough_subset: "set (few_enough self idxs) \<subseteq> set idxs"
  by (auto simp: few_enough_def)

lemma get_big_maxes_bounds:
  assumes "get_big_maxes self = Inr self'" and "big_maxes self = []" and "i \<in> set (big_maxes self')"
  shows "0 < i \<and> i < length (data self) - 1"
proof -
  from assms have "i \<in> set (few_enough self (candidates self))"
    by (auto simp: get_big_maxes_def Let_def split: if_splits)
  then show ?thesis using few_enough_subset candidates_bounds by blast
qed

lemma FindPeaks_kwargs_fields:
  "FindPeaks_kwargs s kw = Inr pf \<Longrightarrow> data pf = s \<and> big_maxes pf = []"
  by (auto simp: FindPeaks_kwargs_def FindPeaks_init_def split: if_splits sum.splits)

lemma series_peaks_bounds:
  assumes "series_peaks s kw = Inr v" and "i \<in> set v"
  shows "0 < i \<and> i < length s - 1"
proof -
  from assms(1) obtain pf where pf: "FindPeaks_kwargs s kw = Inr pf"
    and r: "(if max_value pf \<ge> val (peak_min_value pf)
             then bind_err (get_big_maxes pf) (\<lambda>pf'. Inr (big_maxes pf')) else Inr []) = Inr v"
    by (auto simp: series_peaks_def bind_err_Inr_iff)
  from FindPeaks_kwargs_fields [OF pf] have d: "data pf = s" and b: "big_maxes pf = []" by simp_all
  show ?thesis
  proof (cases "max_value pf \<ge> val (peak_min_value pf)")
    case True
    with r obtain pf' where g: "get_big_maxes pf = Inr pf'" and v: "v = big_maxes pf'"
      by (auto simp: bind_err_Inr_iff)
    from get_big_maxes_bounds [OF g b] assms(2) v d show ?thesis by simp
  next
    case False
    with r assms(2) show ?thesis by simp
  qed
qed

subsection \<open>Peak detection reads the numeric values only\<close>

lemma val_nth_cong:
  assumes "map val s = map val s'" and "i < length s"
  shows "val (s ! i) = val (s' ! i)"
proof -
  have "length s = length s'" using assms(1) by (rule map_eq_imp_length_eq)
  with assms have "map val s ! i = map val s' ! i" by simp
  with assms(2) \<open>length s = length s'\<close> show ?thesis by simp
qed

lemma spec_candidate_cong:
  assumes "map val (data self) = map val s'" and "1 \<le> i" and "i < length (data self) - 1"
  shows "spec_candidate (self\<lparr>data := s'\<rparr>) i = spec_candidate self i"
proof -
  have a: "val (data self ! i) = val (s' ! i)" using assms by (intro val_nth_cong) simp_all
  have b: "val (data self ! (i - Suc 0)) = val (s' ! (i - Suc 0))"
    using assms by (intro val_nth_cong) simp_all
  have c: "val (data self ! Suc i) = val (s' ! Suc i)"
    using assms by (intro val_nth_cong) simp_all
  show ?thesis
    by (simp add: spec_candidate_def spec_local_max_def spec_magnitude_def
        is_close_to_abs_max_def a b c)
qed

lemma candidates_cong:
  assumes "map val (data self) = map val s'"
  shows "candidates (self\<lparr>data := s'\<rparr>) = candidates self"
proof -
  have len: "length s' = length (data self)" using assms by (metis length_map)
  show ?thesis unfolding candidates_eq using len
    by (auto intro!: filter_cong spec_candidate_cong [OF assms])
qed

lemma few_enough_cong:
  assumes "map val (data self) = map val s'" and "\<forall>i \<in> set idxs. i < length (data self)"
  shows "few_enough (self\<lparr>data := s'\<rparr>) idxs = few_enough self idxs"
proof -
  have v: "\<And>i. i \<in> set idxs \<Longrightarrow> val (data self ! i) = val (s' ! i)"
    using assms by (intro val_nth_cong) auto
  have "\<And>i. i \<in> set idxs \<Longrightarrow>
      has_few_enough_peaks (self\<lparr>data := s'\<rparr>) i idxs = has_few_enough_peaks self i idxs"
  proof -
    fix i assume i: "i \<in> set idxs"
    have "filter (\<lambda>elt. val (s' ! elt) \<ge> val (s' ! i)) idxs
        = filter (\<lambda>elt. val (data self ! elt) \<ge> val (data self ! i)) idxs"
      using v i by (intro filter_cong) auto
    then show "has_few_enough_peaks (self\<lparr>data := s'\<rparr>) i idxs = has_few_enough_peaks self i idxs"
      by (simp add: has_few_enough_peaks_def)
  qed
  then show ?thesis unfolding few_enough_def by (intro filter_cong) auto
qed

lemma smooth_data_map:
  "map f (map snd (filter (\<lambda>(i, elt). P i) (enumerate n xs)))
     = map snd (filter (\<lambda>(i, elt). P i) (enumerate n (map f xs)))"
  by (induction xs arbitrary: n) auto

lemma check_std_variation_cong:
  assumes "map val (data self) = map val s'"
  shows "check_std_variation (self\<lparr>data := s'\<rparr>) idxs = check_std_variation self idxs"
proof -
  have "map val (map snd (filter (\<lambda>(i, elt). i \<notin> set idxs) (enumerate 0 s')))
      = map val (map snd (filter (\<lambda>(i, elt). i \<notin> set idxs) (enumerate 0 (data self))))"
    unfolding smooth_data_map using assms by simp
  then show ?thesis
    using assms by (simp add: check_std_variation_def cong: option.case_cong)
qed

lemma get_big_maxes_cong:
  assumes "map val (data self) = map val s'"
  shows "get_big_maxes (self\<lparr>data := s'\<rparr>)
       = (case get_big_maxes self of Inl e \<Rightarrow> Inl e | Inr r \<Rightarrow> Inr (r\<lparr>data := s'\<rparr>))"
proof -
  have len: "length s' = length (data self)" using assms by (metis length_map)
  have c: "candidates (self\<lparr>data := s'\<rparr>) = candidates self" by (rule candidates_cong [OF assms])
  have "\<forall>i \<in> set (candidates self). i < length (data self)"
    using candidates_bounds by fastforce
  then have f: "few_enough (self\<lparr>data := s'\<rparr>) (candidates self) = few_enough self (candidates self)"
    by (rule few_enough_cong [OF assms])
  show ?thesis
    by (simp add: get_big_maxes_def len c f check_std_variation_cong [OF assms] Let_def)
qed

lemma FindPeaks_kwargs_cong:
  assumes "map val s = map val s'"
  shows "FindPeaks_kwargs s' kw
       = (case FindPeaks_kwargs s kw of Inl e \<Rightarrow> Inl e | Inr r \<Rightarrow> Inr (r\<lparr>data := s'\<rparr>))"
  using assms by (simp add: FindPeaks_kwargs_def FindPeaks_init_def split: sum.splits)

lemma series_peaks_cong:
  assumes "map val s = map val s'"
  shows "series_peaks s' kw = series_peaks s kw"
proof (cases "FindPeaks_kwargs s kw")
  case (Inl e)
  then show ?thesis using FindPeaks_kwargs_cong [OF assms, of kw] by (simp add: series_peaks_def)
next
  case (Inr pf)
  then have d: "data pf = s" using FindPeaks_kwargs_fields by blast
  have k: "FindPeaks_kwargs s' kw = Inr (pf\<lparr>data := s'\<rparr>)"
    using FindPeaks_kwargs_cong [OF assms, of kw] Inr by simp
  have g: "get_big_maxes (pf\<lparr>data := s'\<rparr>)
       = (case get_big_maxes pf of Inl e \<Rightarrow> Inl e | Inr r \<Rightarrow> Inr (r\<lparr>data := s'\<rparr>))"
    using get_big_maxes_cong [of pf s'] assms d by simp
  show ?thesis
    by (simp add: series_peaks_def Inr k g split: sum.splits)
qed

section \<open>Properties of the leak detector\<close>

lemma dict_get_Inr_iff: "dict_get d k = Inr v \<longleftrightarrow> map_of d k = Some v"
  by (simp add: dict_get_def split: option.splits)

lemma dict_get_in_keys: "dict_get d k = Inr v \<Longrightarrow> k \<in> set (keys d)"
  by (auto simp: dict_get_Inr_iff keys_def dest: map_of_SomeD intro: rev_image_eqI)

lemma keys_update: "set (keys (AList.update k v d)) = insert k (set (keys d))"
  using dom_update [of k v d] by (simp add: keys_def)

lemma route_leaks_step_keys:
  assumes "route_leaks_step self pp cp a rl = Inr rl'"
    and "set (keys rl) \<subseteq> set (keys (pfx_data self)) \<inter> set (keys (cfl_data self))"
  shows "set (keys rl') \<subseteq> set (keys (pfx_data self)) \<inter> set (keys (cfl_data self))"
  using assms
  by (auto simp: route_leaks_step_def bind_err_Inr_iff Let_def keys_update
      dest: dict_get_in_keys split: option.splits if_splits)

subsection \<open>Duplicates and peaks\<close>

lemma fill_duplicates_step_sound:
  assumes "fill_duplicates_step a st = Inr st'"
    and "rev_sound d (fst st) \<and> dupl_sound d (fst (snd st)) \<and> unique_sound d (snd (snd st))"
  shows "rev_sound d (fst st') \<and> dupl_sound d (fst (snd st')) \<and> unique_sound d (snd (snd st'))"
proof -
  obtain rv dupl u where st: "st = (rv, dupl, u)" by (cases st) auto
  from assms(2) st have R: "rev_sound d rv" and D: "dupl_sound d dupl" and U: "unique_sound d u"
    by simp_all
  from assms(1) st obtain s where s: "map_of u a = Some s"
    by (auto simp: fill_duplicates_step_def split: option.splits)
  from U s have ds: "map_of d a = Some s" by (simp add: unique_sound_def)
  show ?thesis
  proof (cases "map_of rv (map val s)")
    case None
    with assms(1) st s have st': "st' = (AList.update (map val s) a rv, dupl, u)"
      by (simp add: fill_duplicates_step_def Let_def)
    have "rev_sound d (AList.update (map val s) a rv)"
      using R ds by (auto simp: rev_sound_def update_conv')
    with D U st' show ?thesis by simp
  next
    case (Some b)
    with assms(1) st s have st': "st' = (rv, AList.update b (dict_get_default dupl b [] @ [a]) dupl,
        AList.delete a u)"
      by (simp add: fill_duplicates_step_def Let_def)
    from R Some obtain sb where sb: "map_of d b = Some sb" "map val sb = map val s"
      by (auto simp: rev_sound_def)
    have "dupl_sound d (AList.update b (dict_get_default dupl b [] @ [a]) dupl)"
      unfolding dupl_sound_def
    proof (intro allI impI)
      fix b' l x
      assume l: "map_of (AList.update b (dict_get_default dupl b [] @ [a]) dupl) b' = Some l"
        and x: "x \<in> set l"
      show "\<exists>s sb. map_of d x = Some s \<and> map_of d b' = Some sb \<and> map val s = map val sb"
      proof (cases "b' = b")
        case False
        with l have "map_of dupl b' = Some l" by (simp add: update_conv')
        with D x show ?thesis unfolding dupl_sound_def by blast
      next
        case True
        with l have l': "l = dict_get_default dupl b [] @ [a]" by (simp add: update_conv')
        show ?thesis
        proof (cases "x = a")
          case True
          with ds sb \<open>b' = b\<close> show ?thesis by auto
        next
          case False
          with x l' obtain l0 where "map_of dupl b = Some l0" "x \<in> set l0"
            by (cases "map_of dupl b") (auto simp: dict_get_default_def)
          with D \<open>b' = b\<close> show ?thesis unfolding dupl_sound_def by blast
        qed
      qed
    qed
    moreover have "unique_sound d (AList.delete a u)"
      using U by (auto simp: unique_sound_def delete_conv' split: if_splits)
    ultimately show ?thesis using R st' by simp
  qed
qed

lemma fill_duplicates_struct_sound:
  assumes "fill_duplicates_struct [] d = Inr du"
  shows "dupl_sound d (fst du) \<and> unique_sound d (snd du)"
proof -
  from assms obtain st where run: "foldM fill_duplicates_step (keys d) ([], [], d) = Inr st"
    and du: "du = snd st"
    by (auto simp: fill_duplicates_struct_def bind_err_Inr_iff)
  have "rev_sound d (fst st) \<and> dupl_sound d (fst (snd st)) \<and> unique_sound d (snd (snd st))"
  proof (rule foldM_invariant [OF run])
    show "rev_sound d (fst ([], [], d)) \<and> dupl_sound d (fst (snd ([], [], d)))
        \<and> unique_sound d (snd (snd ([], [], d)))"
      by (simp add: rev_sound_def dupl_sound_def unique_sound_def)
  next
    fix x t t'
    assume "fill_duplicates_step x t = Inr t'"
      and "rev_sound d (fst t) \<and> dupl_sound d (fst (snd t)) \<and> unique_sound d (snd (snd t))"
    then show "rev_sound d (fst t') \<and> dupl_sound d (fst (snd t')) \<and> unique_sound d (snd (snd t'))"
      by (rule fill_duplicates_step_sound)
  qed
  with du show ?thesis by simp
qed

lemma get_ases_with_peak_sound:
  assumes "get_ases_with_peak u kw = Inr pk" and "unique_sound d u"
  shows "peaks_sound d kw pk"
proof (rule foldM_invariant [OF assms(1) [unfolded get_ases_with_peak_def]])
  show "peaks_sound d kw []" by (simp add: peaks_sound_def)
next
  fix a t t'
  assume step: "get_ases_with_peak_step u kw a t = Inr t'" and t: "peaks_sound d kw t"
  from step obtain s bm where s: "map_of u a = Some s" and bm: "series_peaks s kw = Inr bm"
    and t': "t' = (if bm \<noteq> [] then AList.update a bm t else t)"
    by (auto simp: get_ases_with_peak_step_def bind_err_Inr_iff dict_get_Inr_iff split: if_splits)
  from assms(2) s have "map_of d a = Some s" by (simp add: unique_sound_def)
  with t bm t' show "peaks_sound d kw t'"
    by (auto simp: peaks_sound_def update_conv')
qed

lemma put_back_step_sound:
  assumes "put_back_step a x pk = Inr pk'" and "peaks_sound d kw pk"
    and "\<exists>s sb. map_of d x = Some s \<and> map_of d a = Some sb \<and> map val s = map val sb"
  shows "peaks_sound d kw pk'"
proof -
  from assms(1) obtain v where v: "map_of pk a = Some v" and pk': "pk' = AList.update x v pk"
    by (auto simp: put_back_step_def bind_err_Inr_iff dict_get_Inr_iff)
  from assms(2) v obtain sa where sa: "map_of d a = Some sa" "series_peaks sa kw = Inr v"
    by (auto simp: peaks_sound_def)
  from assms(3) sa obtain s where s: "map_of d x = Some s" "map val s = map val sa" by auto
  have "series_peaks s kw = Inr v"
    using series_peaks_cong [of sa s kw] s sa by simp
  with assms(2) s pk' show ?thesis by (auto simp: peaks_sound_def update_conv')
qed

lemma put_duplicates_back_sound:
  assumes "put_duplicates_back dupl pk = Inr pk'" and "dupl_sound d dupl" and "peaks_sound d kw pk"
  shows "peaks_sound d kw pk'"
proof (rule foldM_invariant [OF assms(1) [unfolded put_duplicates_back_def]])
  show "peaks_sound d kw pk" by (rule assms(3))
next
  fix a t t'
  assume inner: "foldM (put_back_step a) (dict_get_default dupl a []) t = Inr t'"
    and t: "peaks_sound d kw t"
  show "peaks_sound d kw t'"
  proof (rule foldM_invariant [OF inner])
    show "peaks_sound d kw t" by (rule t)
  next
    fix x u u'
    assume x: "x \<in> set (dict_get_default dupl a [])"
      and u: "peaks_sound d kw u" and step: "put_back_step a x u = Inr u'"
    from x obtain l where "map_of dupl a = Some l" "x \<in> set l"
      by (cases "map_of dupl a") (auto simp: dict_get_default_def)
    with assms(2) have "\<exists>s sb. map_of d x = Some s \<and> map_of d a = Some sb \<and> map val s = map val sb"
      unfolding dupl_sound_def by blast
    with step u show "peaks_sound d kw u'" by (rule put_back_step_sound)
  qed
qed

lemma route_leaks_step_sound:
  assumes "route_leaks_step self pfx_peaks cfl_peaks a rl = Inr rl'"
    and "leaks_sound self pfx_peaks cfl_peaks rl"
  shows "leaks_sound self pfx_peaks cfl_peaks rl'"
proof (cases "map_of pfx_peaks a")
  case None
  with assms show ?thesis by (simp add: route_leaks_step_def)
next
  case (Some pp)
  with assms(1) obtain cp where cp: "map_of cfl_peaks a = Some cp"
    by (auto simp: route_leaks_step_def bind_err_Inr_iff dict_get_Inr_iff)
  show ?thesis
  proof (cases "filter (\<lambda>i. i \<in> set pp) cp = []")
    case True
    with assms Some cp show ?thesis
      by (simp add: route_leaks_step_def dict_get_def)
  next
    case False
    with assms(1) Some cp obtain pd cd where pd: "map_of (pfx_data self) a = Some pd"
      and cd: "map_of (cfl_data self) a = Some cd"
      and rl': "rl' = AList.update a \<lparr>leaks = map_leaks_indexes (start self) (filter (\<lambda>i. i \<in> set pp) cp),
                     leak_pfx_data = pd, leak_cfl_data = cd\<rparr> rl"
      by (auto simp: route_leaks_step_def bind_err_Inr_iff dict_get_Inr_iff Let_def)
    show ?thesis unfolding leaks_sound_def
    proof (intro allI impI)
      fix b r assume r: "map_of rl' b = Some r"
      show "\<exists>pp cp pd cd.
           map_of pfx_peaks b = Some pp \<and> map_of cfl_peaks b = Some cp \<and>
           map_of (pfx_data self) b = Some pd \<and> map_of (cfl_data self) b = Some cd \<and>
           filter (\<lambda>i. i \<in> set pp) cp \<noteq> [] \<and>
           r = \<lparr>leaks = map_leaks_indexes (start self) (filter (\<lambda>i. i \<in> set pp) cp),
                leak_pfx_data = pd, leak_cfl_data = cd\<rparr>"
      proof (cases "b = a")
        case True
        with r rl' Some cp pd cd False show ?thesis by (simp add: update_conv')
      next
        case False
        with r rl' have "map_of rl b = Some r" by (simp add: update_conv')
        with assms(2) show ?thesis unfolding leaks_sound_def by blast
      qed
    qed
  qed
qed

subsection \<open>From the constructor to the leak records\<close>

lemma PyFindRouteLeaks_init_sound:
  assumes "PyFindRouteLeaks_init pfx cfl pfx_min cfl_min nb sim std st = Inr self"
  shows "pfx_data self = pfx \<and> cfl_data self = cfl \<and> start self = st
       \<and> params self = init_params pfx_min cfl_min nb sim std
       \<and> dupl_sound pfx (pfx_dupl_ases self) \<and> unique_sound pfx (pfx_unique_data self)
       \<and> dupl_sound cfl (cfl_dupl_ases self) \<and> unique_sound cfl (cfl_unique_data self)"
proof -
  from assms obtain pd cd where pd: "fill_duplicates_struct [] pfx = Inr pd"
    and cd: "fill_duplicates_struct [] cfl = Inr cd"
    and self: "self = \<lparr>params = init_params pfx_min cfl_min nb sim std, pfx_data = pfx,
            cfl_data = cfl, start = st, pfx_dupl_ases = fst pd, cfl_dupl_ases = fst cd,
            pfx_unique_data = snd pd, cfl_unique_data = snd cd\<rparr>"
    by (auto simp: PyFindRouteLeaks_init_def bind_err_Inr_iff)
  from fill_duplicates_struct_sound [OF pd] fill_duplicates_struct_sound [OF cd] self
  show ?thesis by simp
qed

lemma side_peaks_sound:
  assumes "peak_params p name = Inr kwp" and "peaks_sound d kwp pk" and "map_of pk a = Some v"
  shows "\<exists>s. map_of d a = Some s \<and> side_peaks p name s = Inr v"
  using assms by (auto simp: peaks_sound_def side_peaks_def)

lemma detected_peaks_sound:
  assumes "find_pfx_n_cfl_peaks self = Inr pc"
    and "put_duplicates_back (pfx_dupl_ases self) (fst pc) = Inr pp"
    and "put_duplicates_back (cfl_dupl_ases self) (snd pc) = Inr cp"
    and "dupl_sound (pfx_data self) (pfx_dupl_ases self)"
    and "unique_sound (pfx_data self) (pfx_unique_data self)"
    and "dupl_sound (cfl_data self) (cfl_dupl_ases self)"
    and "unique_sound (cfl_data self) (cfl_unique_data self)"
  shows "\<exists>kwp kwc. peak_params (params self) ''pfx_peak_min_value'' = Inr kwp
       \<and> peak_params (params self) ''cfl_peak_min_value'' = Inr kwc
       \<and> peaks_sound (pfx_data self) kwp pp \<and> peaks_sound (cfl_data self) kwc cp"
proof -
  from assms(1) obtain kwp kwc where
    kwp: "peak_params (params self) ''pfx_peak_min_value'' = Inr kwp"
    and p0: "get_ases_with_peak (pfx_unique_data self) kwp = Inr (fst pc)"
    and kwc: "peak_params (params self) ''cfl_peak_min_value'' = Inr kwc"
    and c0: "get_ases_with_peak (cfl_unique_data self) kwc = Inr (snd pc)"
    by (auto simp: find_pfx_n_cfl_peaks_def bind_err_Inr_iff)
  have "peaks_sound (pfx_data self) kwp pp"
    using put_duplicates_back_sound [OF assms(2) assms(4)]
      get_ases_with_peak_sound [OF p0 assms(5)] by simp
  moreover have "peaks_sound (cfl_data self) kwc cp"
    using put_duplicates_back_sound [OF assms(3) assms(6)]
      get_ases_with_peak_sound [OF c0 assms(7)] by simp
  ultimately show ?thesis using kwp kwc by blast
qed

lemma route_leaks_loop_sound:
  assumes "foldM (route_leaks_step self pp cp) ks [] = Inr res"
  shows "leaks_sound self pp cp res"
proof (rule foldM_invariant [OF assms])
  show "leaks_sound self pp cp []" by (simp add: leaks_sound_def)
next
  fix x t t'
  assume "route_leaks_step self pp cp x t = Inr t'" and "leaks_sound self pp cp t"
  then show "leaks_sound self pp cp t'" by (rule route_leaks_step_sound)
qed

subsection \<open>The detection returns\<close>

lemma foldM_total:
  assumes "P s"
    and "\<And>x t. x \<in> set xs \<Longrightarrow> P t \<Longrightarrow> \<exists>t'. f x t = Inr t' \<and> P t'"
  shows "\<exists>s'. foldM f xs s = Inr s' \<and> P s'"
  using assms
proof (induction xs arbitrary: s)
  case Nil
  then show ?case by simp
next
  case (Cons x xs)
  from Cons.prems(2) [of x s] Cons.prems(1) obtain t where t: "f x s = Inr t" "P t" by auto
  have "\<exists>s'. foldM f xs t = Inr s' \<and> P s'"
    by (rule Cons.IH [OF t(2)]) (rule Cons.prems(2), simp_all)
  with t(1) show ?case by simp
qed

lemma in_keys_iff: "k \<in> set (keys d) \<longleftrightarrow> map_of d k \<noteq> None"
  by (simp add: keys_def map_of_eq_None_iff)

lemma keys_delete: "set (keys (AList.delete k d)) = set (keys d) - {k}"
  by (simp add: keys_def delete_keys)

lemma fill_duplicates_loop_total:
  assumes "distinct ks" and "set ks \<subseteq> set (keys u)"
  shows "\<exists>st. foldM fill_duplicates_step ks (rv, dupl, u) = Inr st"
  using assms
proof (induction ks arbitrary: rv dupl u)
  case Nil
  then show ?case by simp
next
  case (Cons a ks)
  from Cons.prems(2) obtain s where s: "map_of u a = Some s"
    by (auto simp: in_keys_iff)
  show ?case
  proof (cases "map_of rv (map val s)")
    case None
    with s have "fill_duplicates_step a (rv, dupl, u) = Inr (AList.update (map val s) a rv, dupl, u)"
      by (simp add: fill_duplicates_step_def)
    moreover have "\<exists>st. foldM fill_duplicates_step ks (AList.update (map val s) a rv, dupl, u) = Inr st"
      using Cons.prems by (intro Cons.IH) auto
    ultimately show ?thesis by simp
  next
    case (Some b)
    with s have "fill_duplicates_step a (rv, dupl, u)
        = Inr (rv, AList.update b (dict_get_default dupl b [] @ [a]) dupl, AList.delete a u)"
      by (simp add: fill_duplicates_step_def)
    moreover have "\<exists>st. foldM fill_duplicates_step ks
        (rv, AList.update b (dict_get_default dupl b [] @ [a]) dupl, AList.delete a u) = Inr st"
      using Cons.prems by (intro Cons.IH) (auto simp: keys_delete)
    ultimately show ?thesis by simp
  qed
qed

lemma fill_duplicates_struct_total:
  assumes "distinct (keys d)"
  shows "\<exists>du. fill_duplicates_struct [] d = Inr du"
proof -
  from fill_duplicates_loop_total [OF assms, of d "[]" "[]"]
  obtain st where "foldM fill_duplicates_step (keys d) ([], [], d) = Inr st" by auto
  then show ?thesis by (simp add: fill_duplicates_struct_def)
qed

lemma PyFindRouteLeaks_init_total:
  assumes "distinct (keys pfx)" and "distinct (keys cfl)"
  shows "\<exists>self. PyFindRouteLeaks_init pfx cfl pfx_min cfl_min nb sim std st = Inr self"
proof -
  from fill_duplicates_struct_total [OF assms(1)] obtain pd where
    "fill_duplicates_struct [] pfx = Inr pd" by auto
  moreover from fill_duplicates_struct_total [OF assms(2)] obtain cd where
    "fill_duplicates_struct [] cfl = Inr cd" by auto
  ultimately show ?thesis by (simp add: PyFindRouteLeaks_init_def)
qed

lemma keys_set_known_param: "keys (set_known_param kv p) = keys p"
  by (simp add: set_known_param_def keys_def update_keys)

lemma keys_fold_set_known_param: "keys (fold set_known_param kw p) = keys p"
  by (induction kw arbitrary: p) (simp_all add: keys_set_known_param)

lemma peak_params_total:
  assumes "keys p = five_names"
    and "name = ''pfx_peak_min_value'' \<or> name = ''cfl_peak_min_value''"
  shows "\<exists>kwp. peak_params p name = Inr kwp \<and>
     set (keys kwp) = {''max_nb_peaks'', ''percent_similarity'', ''percent_std'', ''peak_min_value''}"
proof -
  have k: "set (keys p) = set five_names" using assms(1) by simp
  have 1: "map_of p ''pfx_peak_min_value'' \<noteq> None"
    unfolding in_keys_iff [symmetric] k by (simp add: five_names_def)
  have 2: "map_of p ''cfl_peak_min_value'' \<noteq> None"
    unfolding in_keys_iff [symmetric] k by (simp add: five_names_def)
  have 3: "map_of p name \<noteq> None" using assms(2) 1 2 by auto
  from 1 2 3 obtain v where v: "map_of p name = Some v" by auto
  have "peak_params p name = Inr (AList.update ''peak_min_value'' v
         (AList.delete ''cfl_peak_min_value'' (AList.delete ''pfx_peak_min_value'' p)))"
    using 1 2 v
    by (auto simp: peak_params_def dict_del_def dict_get_def delete_conv')
  moreover have "set (keys (AList.update ''peak_min_value'' v
         (AList.delete ''cfl_peak_min_value'' (AList.delete ''pfx_peak_min_value'' p))))
       = {''max_nb_peaks'', ''percent_similarity'', ''percent_std'', ''peak_min_value''}"
    unfolding keys_update keys_delete k by (auto simp: five_names_def)
  ultimately show ?thesis by blast
qed

lemma series_peaks_total:
  assumes "2 \<le> length s"
    and "set (keys kw) \<subseteq> {''max_nb_peaks'', ''percent_similarity'', ''percent_std'', ''peak_min_value''}"
  shows "\<exists>v. series_peaks s kw = Inr v"
proof -
  from assms(1) obtain x xs where s: "s = x # xs" by (cases s) auto
  have allowed: "list_all (\<lambda>k. k \<in> set [''peak_min_value'', ''max_nb_peaks'', ''percent_similarity'',
                                     ''percent_std'']) (keys kw)"
    using assms(2) by (auto simp: list_all_iff)
  then obtain pf where pf: "FindPeaks_kwargs s kw = Inr pf"
    by (simp add: FindPeaks_kwargs_def FindPeaks_init_def s)
  from FindPeaks_kwargs_fields [OF pf] have "data pf = s" by simp
  with assms(1) have "\<exists>pf'. get_big_maxes pf = Inr pf'"
    by (simp add: get_big_maxes_def Let_def)
  then obtain pf' where "get_big_maxes pf = Inr pf'" by blast
  with pf show ?thesis by (simp add: series_peaks_def)
qed

lemma get_ases_with_peak_total:
  assumes "\<forall>a s. map_of u a = Some s \<longrightarrow> 2 \<le> length s"
    and "set (keys kw) \<subseteq> {''max_nb_peaks'', ''percent_similarity'', ''percent_std'', ''peak_min_value''}"
  shows "\<exists>pk. get_ases_with_peak u kw = Inr pk"
proof -
  have "\<exists>pk. foldM (get_ases_with_peak_step u kw) (keys u) [] = Inr pk \<and> True"
  proof (rule foldM_total)
    fix a t assume "a \<in> set (keys u)"
    then obtain s where s: "map_of u a = Some s" by (auto simp: in_keys_iff)
    with assms(1) have "2 \<le> length s" by blast
    from series_peaks_total [OF this assms(2)] obtain v where "series_peaks s kw = Inr v" by blast
    with s show "\<exists>t'. get_ases_with_peak_step u kw a t = Inr t' \<and> True"
      by (simp add: get_ases_with_peak_step_def dict_get_def)
  qed simp
  then show ?thesis by (simp add: get_ases_with_peak_def)
qed

lemma put_duplicates_back_total: "\<exists>pk'. put_duplicates_back dupl pk = Inr pk'"
proof -
  have "\<exists>pk'. foldM (\<lambda>a. foldM (put_back_step a) (dict_get_default dupl a [])) (keys pk) pk = Inr pk'
          \<and> set (keys pk) \<subseteq> set (keys pk')"
  proof (rule foldM_total)
    show "set (keys pk) \<subseteq> set (keys pk)" by simp
  next
    fix a and t :: peaks
    assume a: "a \<in> set (keys pk)" and t: "set (keys pk) \<subseteq> set (keys t)"
    have "\<exists>t'. foldM (put_back_step a) (dict_get_default dupl a []) t = Inr t'
          \<and> set (keys pk) \<subseteq> set (keys t')"
    proof (rule foldM_total)
      show "set (keys pk) \<subseteq> set (keys t)" by (rule t)
    next
      fix x and u :: peaks
      assume u: "set (keys pk) \<subseteq> set (keys u)"
      with a have "a \<in> set (keys u)" by blast
      then obtain v where "map_of u a = Some v" by (auto simp: in_keys_iff)
      then have "put_back_step a x u = Inr (AList.update x v u)"
        by (simp add: put_back_step_def dict_get_def)
      with u show "\<exists>u'. put_back_step a x u = Inr u' \<and> set (keys pk) \<subseteq> set (keys u')"
        by (auto simp: keys_update)
    qed
    then show "\<exists>t'. foldM (put_back_step a) (dict_get_default dupl a []) t = Inr t'
          \<and> set (keys pk) \<subseteq> set (keys t')" .
  qed
  then show ?thesis by (auto simp: put_duplicates_back_def)
qed

lemma route_leaks_loop_total:
  assumes "peaks_sound (pfx_data self) kwp pp" and "peaks_sound (cfl_data self) kwc cp"
  shows "\<exists>res. foldM (route_leaks_step self pp cp) (keys cp) [] = Inr res"
proof -
  have "\<exists>res. foldM (route_leaks_step self pp cp) (keys cp) [] = Inr res \<and> True"
  proof (rule foldM_total)
    fix a t assume "a \<in> set (keys cp)"
    then obtain ck where ck: "map_of cp a = Some ck" by (auto simp: in_keys_iff)
    with assms(2) obtain cd where cd: "map_of (cfl_data self) a = Some cd"
      by (auto simp: peaks_sound_def)
    show "\<exists>t'. route_leaks_step self pp cp a t = Inr t' \<and> True"
    proof (cases "map_of pp a")
      case None
      then show ?thesis by (simp add: route_leaks_step_def)
    next
      case (Some pk)
      with assms(1) obtain pd where "map_of (pfx_data self) a = Some pd"
        by (auto simp: peaks_sound_def)
      with Some ck cd show ?thesis
        by (simp add: route_leaks_step_def dict_get_def Let_def)
    qed
  qed simp
  then show ?thesis by simp
qed

lemma unique_series_long:
  assumes "unique_sound d u" and "\<forall>s \<in> snd ` set d. 2 \<le> length s"
  shows "\<forall>a s. map_of u a = Some s \<longrightarrow> 2 \<le> length s"
proof (intro allI impI)
  fix a s assume "map_of u a = Some s"
  with assms(1) have "map_of d a = Some s" by (simp add: unique_sound_def)
  then have "(a, s) \<in> set d" by (rule map_of_SomeD)
  then have "s \<in> snd ` set d" by force
  with assms(2) show "2 \<le> length s" by blast
qed

lemma get_route_leaks_returns:
  assumes init: "PyFindRouteLeaks_init pfx cfl pfx_min cfl_min nb sim std st = Inr self"
    and long_pfx: "\<forall>s \<in> snd ` set pfx. 2 \<le> length s"
    and long_cfl: "\<forall>s \<in> snd ` set cfl. 2 \<le> length s"
    and nonempty: "pfx \<noteq> []"
  shows "\<exists>res. snd (get_route_leaks m self kw) = Inr res"
proof -
  note S = PyFindRouteLeaks_init_sound [OF init]
  from nonempty S obtain s ss where ne: "map snd (pfx_data self) = s # ss"
    by (cases pfx) auto
  show ?thesis
  proof (cases "length s < m")
    case True
    with ne show ?thesis by (simp add: get_route_leaks_def)
  next
    case False
    define self2 where "self2 = self\<lparr>params := fold set_known_param kw (params self)\<rparr>"
    have unfolded: "snd (get_route_leaks m self kw) =
      bind_err (find_pfx_n_cfl_peaks self2) (\<lambda>pc.
      bind_err (put_duplicates_back (pfx_dupl_ases self2) (fst pc)) (\<lambda>pfx_peaks.
      bind_err (put_duplicates_back (cfl_dupl_ases self2) (snd pc)) (\<lambda>cfl_peaks.
        foldM (route_leaks_step self2 pfx_peaks cfl_peaks) (keys cfl_peaks) [])))"
      using ne False by (simp add: get_route_leaks_def Let_def self2_def)
    have S2: "pfx_data self2 = pfx" "cfl_data self2 = cfl"
      "dupl_sound pfx (pfx_dupl_ases self2)" "unique_sound pfx (pfx_unique_data self2)"
      "dupl_sound cfl (cfl_dupl_ases self2)" "unique_sound cfl (cfl_unique_data self2)"
      using S by (simp_all add: self2_def)
    have "keys (params self2) = keys (init_params pfx_min cfl_min nb sim std)"
      using S by (simp add: self2_def keys_fold_set_known_param)
    then have k: "keys (params self2) = five_names"
      by (simp add: init_params_def five_names_def keys_def)
    from peak_params_total [OF k, of "''pfx_peak_min_value''"] obtain kwp where
      kwp: "peak_params (params self2) ''pfx_peak_min_value'' = Inr kwp"
      "set (keys kwp) = {''max_nb_peaks'', ''percent_similarity'', ''percent_std'', ''peak_min_value''}"
      by auto
    from peak_params_total [OF k, of "''cfl_peak_min_value''"] obtain kwc where
      kwc: "peak_params (params self2) ''cfl_peak_min_value'' = Inr kwc"
      "set (keys kwc) = {''max_nb_peaks'', ''percent_similarity'', ''percent_std'', ''peak_min_value''}"
      by auto
    from get_ases_with_peak_total [OF unique_series_long [OF S2(4) long_pfx], of kwp] kwp(2)
    obtain pp0 where pp0: "get_ases_with_peak (pfx_unique_data self2) kwp = Inr pp0" by auto
    from get_ases_with_peak_total [OF unique_series_long [OF S2(6) long_cfl], of kwc] kwc(2)
    obtain cp0 where cp0: "get_ases_with_peak (cfl_unique_data self2) kwc = Inr cp0" by auto
    have f: "find_pfx_n_cfl_peaks self2 = Inr (pp0, cp0)"
      by (simp add: find_pfx_n_cfl_peaks_def kwp(1) kwc(1) pp0 cp0)
    from put_duplicates_back_total obtain pp where
      pp: "put_duplicates_back (pfx_dupl_ases self2) pp0 = Inr pp" by blast
    from put_duplicates_back_total obtain cp where
      cp: "put_duplicates_back (cfl_dupl_ases self2) cp0 = Inr cp" by blast
    have sp: "peaks_sound (pfx_data self2) kwp pp"
      using put_duplicates_back_sound [OF pp, of pfx kwp] S2
        get_ases_with_peak_sound [OF pp0, of pfx] by simp
    have sc: "peaks_sound (cfl_data self2) kwc cp"
      using put_duplicates_back_sound [OF cp, of cfl kwc] S2
        get_ases_with_peak_sound [OF cp0, of cfl] by simp
    from route_leaks_loop_total [OF sp sc] obtain res where
      "foldM (route_leaks_step self2 pp cp) (keys cp) [] = Inr res" by blast
    then show ?thesis unfolding unfolded by (simp add: f pp cp)
  qed
qed

lemma detection_returns:
  assumes "distinct (keys pfx)" and "distinct (keys cfl)" and "pfx \<noteq> []"
    and "\<forall>s \<in> snd ` set pfx. 2 \<le> length s" and "\<forall>s \<in> snd ` set cfl. 2 \<le> length s"
  shows "\<exists>self res. PyFindRouteLeaks_init pfx cfl pfx_min cfl_min nb sim std st = Inr self
     \<and> snd (get_route_leaks m self kw) = Inr res"
proof -
  from PyFindRouteLeaks_init_total [OF assms(1,2)] obtain self where
    i: "PyFindRouteLeaks_init pfx cfl pfx_min cfl_min nb sim std st = Inr self" by blast
  from get_route_leaks_returns [OF i assms(4,5,3)] i show ?thesis by blast
qed

subsection \<open>Evaluating the standard-deviation test\<close>

lemma np_var_nonneg: "0 \<le> np_var xs"
  unfolding np_var_def by (intro divide_nonneg_nonneg sum_list_nonneg) auto

lemma sqrt_less_scaled:
  assumes "0 \<le> a" "0 \<le> b" "0 \<le> p"
  shows "sqrt a < sqrt b * p \<longleftrightarrow> a < b * p\<^sup>2"
proof -
  have "sqrt b * p = sqrt (b * p\<^sup>2)"
    using assms by (simp add: real_sqrt_mult)
  then show ?thesis by simp
qed

lemma check_std_variation_squared:
  assumes "0 \<le> percent_std self"
  shows "check_std_variation self idxs \<longleftrightarrow>
     (let smooth_data = map snd (filter (\<lambda>(i, elt). i \<notin> set idxs) (enumerate 0 (data self)))
      in data self \<noteq> [] \<and> smooth_data \<noteq> [] \<and>
         np_var (map val smooth_data) < np_var (map val (data self)) * (percent_std self)\<^sup>2)"
  using assms
  by (auto simp: check_std_variation_def np_std_def Let_def sqrt_less_scaled np_var_nonneg)

subsection \<open>Boundary scenario 1, evaluated\<close>

lemma scenario1_init:
  "PyFindRouteLeaks_init scenario1_store scenario1_store (PInt 10) (PInt 5) (PInt 2)
     (PFloat (9 / 10)) (PFloat (9 / 10)) None = Inr scenario1_detector"
  by (simp add: PyFindRouteLeaks_init_def fill_duplicates_struct_def keys_def scenario1_store_def
      fill_duplicates_step_def scenario1_detector_def default_params_def)

lemma default_peak_params:
  "peak_params default_params ''pfx_peak_min_value''
     = Inr [(''max_nb_peaks'', 2), (''percent_similarity'', 9 / 10), (''percent_std'', 9 / 10),
            (''peak_min_value'', 10)]"
  "peak_params default_params ''cfl_peak_min_value''
     = Inr [(''max_nb_peaks'', 2), (''percent_similarity'', 9 / 10), (''percent_std'', 9 / 10),
            (''peak_min_value'', 5)]"
  by (simp_all add: peak_params_def default_params_def init_params_def dict_del_def dict_get_def)

lemma scenario1_peaks:
  assumes "0 \<le> pmv" and "pmv < 20"
  shows "series_peaks scenario1_series
     [(''max_nb_peaks'', 2), (''percent_similarity'', 9 / 10), (''percent_std'', 9 / 10),
      (''peak_min_value'', pmv)] = Inr [2]"
proof -
  define pf where "pf = \<lparr>data = scenario1_series, max_value = 25, big_maxes = [],
      peak_min_value = PFloat pmv, max_nb_peaks = 2, percent_sim = 9 / 10, percent_std = 9 / 10\<rparr>"
  have k: "FindPeaks_kwargs scenario1_series
     [(''max_nb_peaks'', 2), (''percent_similarity'', 9 / 10), (''percent_std'', 9 / 10),
      (''peak_min_value'', pmv)] = Inr pf"
    by (simp add: FindPeaks_kwargs_def FindPeaks_init_def keys_def dict_get_default_def
        scenario1_series_def pf_def)
  have c: "candidates pf = [2]"
    using assms
    by (simp add: candidates_eq pf_def scenario1_series_def upt_conv_Cons spec_candidate_def
        spec_local_max_def spec_magnitude_def is_close_to_abs_max_def)
  have f: "few_enough pf [2] = [2]"
    by (simp add: few_enough_def has_few_enough_peaks_def pf_def)
  have "0 \<le> percent_std pf" by (simp add: pf_def)
  from check_std_variation_squared [OF this, of "[2]"]
  have s: "check_std_variation pf [2]"
    by (simp add: pf_def scenario1_series_def enumerate_eq_zip upt_conv_Cons np_var_def
        np_mean_def Let_def power2_eq_square)
  have g: "get_big_maxes pf = Inr (pf\<lparr>big_maxes := [2]\<rparr>)"
    using s by (simp add: get_big_maxes_def c f) (simp add: pf_def scenario1_series_def)
  have m: "max_value pf \<ge> val (peak_min_value pf)" using assms by (simp add: pf_def)
  show ?thesis using m by (simp add: series_peaks_def k g)
qed

lemma scenario1_find_peaks:
  "find_pfx_n_cfl_peaks scenario1_detector = Inr ([(12322, [2])], [(12322, [2])])"
proof -
  have p: "get_ases_with_peak scenario1_store
     [(''max_nb_peaks'', 2), (''percent_similarity'', 9 / 10), (''percent_std'', 9 / 10),
      (''peak_min_value'', 10)] = Inr [(12322, [2])]"
    using scenario1_peaks [of 10]
    by (simp add: get_ases_with_peak_def get_ases_with_peak_step_def keys_def
        scenario1_store_def dict_get_def)
  have c: "get_ases_with_peak scenario1_store
     [(''max_nb_peaks'', 2), (''percent_similarity'', 9 / 10), (''percent_std'', 9 / 10),
      (''peak_min_value'', 5)] = Inr [(12322, [2])]"
    using scenario1_peaks [of 5]
    by (simp add: get_ases_with_peak_def get_ases_with_peak_step_def keys_def
        scenario1_store_def dict_get_def)
  show ?thesis
    by (simp add: find_pfx_n_cfl_peaks_def scenario1_detector_def default_peak_params p c)
qed

lemma scenario1_run:
  assumes "m \<le> 6"
  shows "get_route_leaks m scenario1_detector []
     = (scenario1_detector,
        Inr [(12322, \<lparr>leaks = [Day_index 2], leak_pfx_data = scenario1_series,
                       leak_cfl_data = scenario1_series\<rparr>)])"
proof -
  have s: "scenario1_detector\<lparr>params := params scenario1_detector\<rparr> = scenario1_detector"
    by simp
  have g: "map snd (pfx_data scenario1_detector) = [scenario1_series]"
    by (simp add: scenario1_detector_def scenario1_store_def)
  have l: "\<not> length scenario1_series < m" using assms by (simp add: scenario1_series_def)
  have b: "put_duplicates_back [] [(12322, [2])] = Inr [(12322, [2])]"
    by (simp add: put_duplicates_back_def keys_def dict_get_default_def)
  have d: "pfx_dupl_ases scenario1_detector = []" "cfl_dupl_ases scenario1_detector = []"
    by (simp_all add: scenario1_detector_def)
  have r: "route_leaks_step scenario1_detector [(12322, [2])] [(12322, [2])] 12322 []
       = Inr [(12322, \<lparr>leaks = [Day_index 2], leak_pfx_data = scenario1_series,
                       leak_cfl_data = scenario1_series\<rparr>)]"
    by (simp add: route_leaks_step_def dict_get_def)
       (simp add: scenario1_detector_def scenario1_store_def map_leaks_indexes_def)
  show ?thesis
    by (simp add: get_route_leaks_def g l s scenario1_find_peaks d b r keys_def)
qed

lemma scenario1_run_short:
  assumes "6 < m"
  shows "get_route_leaks m scenario1_detector [] = (scenario1_detector, Inr [])"
  using assms
  by (simp add: get_route_leaks_def scenario1_detector_def scenario1_store_def
      scenario1_series_def)

subsection \<open>The stored parameters across a call\<close>

lemma flat31_init:
  "PyFindRouteLeaks_init flat31_store flat31_store (PInt 10) (PInt 5) (PInt 2)
     (PFloat (9 / 10)) (PFloat (9 / 10)) None = Inr flat31_detector"
  by (simp add: PyFindRouteLeaks_init_def fill_duplicates_struct_def keys_def flat31_store_def
      fill_duplicates_step_def flat31_detector_def default_params_def)

lemma flat31_ru_init:
  "RuFindRouteLeaks_init flat31_store flat31_store (PInt 10) (PInt 5) (PInt 2)
     (PFloat (9 / 10)) (PFloat (9 / 10)) None = Inr flat31_ru_detector"
  by (simp add: RuFindRouteLeaks_init_def aggregate_data_for_rust_def keys_def flat31_store_def
      aggregate_step_def dict_get_def flat31_ru_detector_def default_params_def)

lemma empty_init:
  "PyFindRouteLeaks_init [] [] (PInt 10) (PInt 5) (PInt 2)
     (PFloat (9 / 10)) (PFloat (9 / 10)) None = Inr empty_detector"
  by (simp add: PyFindRouteLeaks_init_def fill_duplicates_struct_def keys_def
      empty_detector_def default_params_def)

lemma empty_ru_init:
  "RuFindRouteLeaks_init [] [] (PInt 10) (PInt 5) (PInt 2)
     (PFloat (9 / 10)) (PFloat (9 / 10)) None = Inr empty_ru_detector"
  by (simp add: RuFindRouteLeaks_init_def aggregate_data_for_rust_def keys_def
      empty_ru_detector_def default_params_def)

lemma fst_get_route_leaks:
  "fst (get_route_leaks m self kw) =
     (case map snd (pfx_data self) of
        [] \<Rightarrow> self
      | s # _ \<Rightarrow> if length s < m then self
                 else self\<lparr>params := fold set_known_param kw (params self)\<rparr>)"
  by (simp add: get_route_leaks_def Let_def split: list.splits)

lemma fst_ru_get_route_leaks:
  "fst (ru_get_route_leaks pd m self kw) =
     (case map snd (pfx_data self) of
        [] \<Rightarrow> self
      | s # _ \<Rightarrow> if length s < m then self
                 else self\<lparr>params := fold set_known_param kw (params self)\<rparr>)"
  by (simp add: ru_get_route_leaks_def Let_def split: list.splits)

lemma map_of_set_known_param:
  "name \<noteq> fst kv \<Longrightarrow> map_of (set_known_param kv p) name = map_of p name"
  by (simp add: set_known_param_def update_conv')

lemma map_of_fold_set_known_param:
  "name \<notin> set (keys kw) \<Longrightarrow> map_of (fold set_known_param kw p) name = map_of p name"
  by (induction kw arbitrary: p) (auto simp: keys_def map_of_set_known_param)

lemma map_of_set_known_param_same:
  "k \<in> set (keys p) \<Longrightarrow> map_of (set_known_param (k, v) p) k = Some (val v)"
  by (simp add: set_known_param_def update_conv')

lemma map_of_fold_set_known_param_named:
  "distinct (map fst kw) \<Longrightarrow> (k, v) \<in> set kw \<Longrightarrow> k \<in> set (keys p)
     \<Longrightarrow> map_of (fold set_known_param kw p) k = Some (val v)"
proof (induction kw arbitrary: p)
  case Nil
  then show ?case by simp
next
  case (Cons kv kw)
  have rest: "distinct (map fst kw)" and fresh: "fst kv \<notin> set (keys kw)"
    using Cons.prems(1) by (simp_all add: keys_def)
  have stored: "k \<in> set (keys (set_known_param kv p))"
    using Cons.prems(3) by (simp add: keys_set_known_param)
  show ?case
  proof (cases "kv = (k, v)")
    case True
    with fresh have "k \<notin> set (keys kw)" by simp
    then have "map_of (fold set_known_param kw (set_known_param kv p)) k
                 = map_of (set_known_param kv p) k"
      by (rule map_of_fold_set_known_param)
    also have "\<dots> = Some (val v)"
      unfolding True using Cons.prems(3) by (rule map_of_set_known_param_same)
    finally show ?thesis by simp
  next
    case False
    with Cons.prems(2) have "(k, v) \<in> set kw" by simp
    from Cons.IH [OF rest this stored] show ?thesis by simp
  qed
qed

lemma flat31_changed:
  "params (fst (get_route_leaks MIN_NB_DAYS flat31_detector [(''pfx_peak_min_value'', PInt 100)]))
     = [(''pfx_peak_min_value'', 100), (''cfl_peak_min_value'', 5), (''max_nb_peaks'', 2),
        (''percent_similarity'', 9 / 10), (''percent_std'', 9 / 10)]"
  by (simp add: fst_get_route_leaks flat31_detector_def flat31_store_def MIN_NB_DAYS_def
      set_known_param_def keys_def default_params_def init_params_def)

lemma flat31_ru_changed:
  "params (fst (ru_get_route_leaks pd MIN_NB_DAYS flat31_ru_detector [(''pfx_peak_min_value'', PInt 100)]))
     = [(''pfx_peak_min_value'', 100), (''cfl_peak_min_value'', 5), (''max_nb_peaks'', 2),
        (''percent_similarity'', 9 / 10), (''percent_std'', 9 / 10)]"
  by (simp add: fst_ru_get_route_leaks flat31_ru_detector_def flat31_store_def MIN_NB_DAYS_def
      set_known_param_def keys_def default_params_def init_params_def)

lemma fold_max_zeros: "fold max (replicate n (0 :: real)) 0 = 0"
  by (induction n) simp_all

lemma flat31_max: "py_max (replicate 31 0) = Inr 0"
proof -
  have "replicate 31 (0 :: real) = 0 # replicate 30 0" by (simp add: eval_nat_numeral)
  moreover have "py_max (0 # replicate 30 0) = Inr 0"
    unfolding py_max.simps fold_max_zeros ..
  ultimately show ?thesis by (simp only:)
qed

lemma flat31_peaks:
  assumes "0 < pmv"
  shows "series_peaks (replicate 31 (PInt 0))
     [(''max_nb_peaks'', 2), (''percent_similarity'', 9 / 10), (''percent_std'', 9 / 10),
      (''peak_min_value'', pmv)] = Inr []"
  using assms
  by (simp add: series_peaks_def FindPeaks_kwargs_def FindPeaks_init_def keys_def
      dict_get_default_def flat31_max)

lemma flat31_returns:
  "snd (get_route_leaks MIN_NB_DAYS flat31_detector [(''pfx_peak_min_value'', PInt 100)]) = Inr []"
proof -
  define p where "p = [(''pfx_peak_min_value'', 100 :: real), (''cfl_peak_min_value'', 5),
     (''max_nb_peaks'', 2), (''percent_similarity'', 9 / 10), (''percent_std'', 9 / 10)]"
  have u: "set_known_param (''pfx_peak_min_value'', PInt 100) default_params = p"
    by (simp add: set_known_param_def keys_def default_params_def init_params_def p_def)
  have pp: "peak_params p ''pfx_peak_min_value''
     = Inr [(''max_nb_peaks'', 2), (''percent_similarity'', 9 / 10), (''percent_std'', 9 / 10),
            (''peak_min_value'', 100)]"
    and pc: "peak_params p ''cfl_peak_min_value''
     = Inr [(''max_nb_peaks'', 2), (''percent_similarity'', 9 / 10), (''percent_std'', 9 / 10),
            (''peak_min_value'', 5)]"
    by (simp_all add: peak_params_def p_def dict_del_def dict_get_def)
  have g: "get_ases_with_peak flat31_store
     [(''max_nb_peaks'', 2), (''percent_similarity'', 9 / 10), (''percent_std'', 9 / 10),
      (''peak_min_value'', 100)] = Inr []"
    "get_ases_with_peak flat31_store
     [(''max_nb_peaks'', 2), (''percent_similarity'', 9 / 10), (''percent_std'', 9 / 10),
      (''peak_min_value'', 5)] = Inr []"
    using flat31_peaks [of 100] flat31_peaks [of 5]
    by (simp_all add: get_ases_with_peak_def get_ases_with_peak_step_def keys_def
        flat31_store_def dict_get_def)
  have f: "find_pfx_n_cfl_peaks (flat31_detector\<lparr>params := p\<rparr>) = Inr ([], [])"
    by (simp add: find_pfx_n_cfl_peaks_def pp pc) (simp add: flat31_detector_def g)
  have d: "map snd (pfx_data flat31_detector) = [replicate 31 (PInt 0)]"
    "params flat31_detector = default_params"
    by (simp_all add: flat31_detector_def flat31_store_def)
  show ?thesis
    by (simp add: get_route_leaks_def d MIN_NB_DAYS_def u f put_duplicates_back_def keys_def
        Let_def)
qed

subsection \<open>Two ASes with the same series, evaluated\<close>

lemma dupl_init:
  "PyFindRouteLeaks_init dupl_pfx_store dupl_cfl_store (PInt 10) (PInt 5) (PInt 2)
     (PFloat (9 / 10)) (PFloat (9 / 10)) None = Inr dupl_detector"
  by (simp add: PyFindRouteLeaks_init_def fill_duplicates_struct_def keys_def dupl_pfx_store_def
      dupl_cfl_store_def fill_duplicates_step_def dupl_detector_def default_params_def
      dict_get_default_def)

lemma dupl_pfx_peaks:
  "series_peaks dupl_pfx_series
     [(''max_nb_peaks'', 2), (''percent_similarity'', 9 / 10), (''percent_std'', 9 / 10),
      (''peak_min_value'', 10)] = Inr [2]"
proof -
  define pf where "pf = \<lparr>data = dupl_pfx_series, max_value = 16, big_maxes = [],
      peak_min_value = PFloat 10, max_nb_peaks = 2, percent_sim = 9 / 10, percent_std = 9 / 10\<rparr>"
  have k: "FindPeaks_kwargs dupl_pfx_series
     [(''max_nb_peaks'', 2), (''percent_similarity'', 9 / 10), (''percent_std'', 9 / 10),
      (''peak_min_value'', 10)] = Inr pf"
    by (simp add: FindPeaks_kwargs_def FindPeaks_init_def keys_def dict_get_default_def
        dupl_pfx_series_def pf_def)
  have c: "candidates pf = [2]"
    by (simp add: candidates_eq pf_def dupl_pfx_series_def upt_conv_Cons spec_candidate_def
        spec_local_max_def spec_magnitude_def is_close_to_abs_max_def)
  have f: "few_enough pf [2] = [2]"
    by (simp add: few_enough_def has_few_enough_peaks_def pf_def)
  have "0 \<le> percent_std pf" by (simp add: pf_def)
  from check_std_variation_squared [OF this, of "[2]"]
  have s: "check_std_variation pf [2]"
    by (simp add: pf_def dupl_pfx_series_def enumerate_eq_zip upt_conv_Cons np_var_def
        np_mean_def Let_def power2_eq_square)
  have g: "get_big_maxes pf = Inr (pf\<lparr>big_maxes := [2]\<rparr>)"
    using s by (simp add: get_big_maxes_def c f) (simp add: pf_def dupl_pfx_series_def)
  have m: "max_value pf \<ge> val (peak_min_value pf)" by (simp add: pf_def)
  show ?thesis using m by (simp add: series_peaks_def k g)
qed

lemma dupl_cfl_peaks:
  "series_peaks dupl_cfl_series
     [(''max_nb_peaks'', 2), (''percent_similarity'', 9 / 10), (''percent_std'', 9 / 10),
      (''peak_min_value'', 5)] = Inr [2]"
proof -
  define pf where "pf = \<lparr>data = dupl_cfl_series, max_value = 10, big_maxes = [],
      peak_min_value = PFloat 5, max_nb_peaks = 2, percent_sim = 9 / 10, percent_std = 9 / 10\<rparr>"
  have k: "FindPeaks_kwargs dupl_cfl_series
     [(''max_nb_peaks'', 2), (''percent_similarity'', 9 / 10), (''percent_std'', 9 / 10),
      (''peak_min_value'', 5)] = Inr pf"
    by (simp add: FindPeaks_kwargs_def FindPeaks_init_def keys_def dict_get_default_def
        dupl_cfl_series_def pf_def)
  have c: "candidates pf = [2]"
    by (simp add: candidates_eq pf_def dupl_cfl_series_def upt_conv_Cons spec_candidate_def
        spec_local_max_def spec_magnitude_def is_close_to_abs_max_def)
  have f: "few_enough pf [2] = [2]"
    by (simp add: few_enough_def has_few_enough_peaks_def pf_def)
  have "0 \<le> percent_std pf" by (simp add: pf_def)
  from check_std_variation_squared [OF this, of "[2]"]
  have s: "check_std_variation pf [2]"
    by (simp add: pf_def dupl_cfl_series_def enumerate_eq_zip upt_conv_Cons np_var_def
        np_mean_def Let_def power2_eq_square)
  have g: "get_big_maxes pf = Inr (pf\<lparr>big_maxes := [2]\<rparr>)"
    using s by (simp add: get_big_maxes_def c f) (simp add: pf_def dupl_cfl_series_def)
  have m: "max_value pf \<ge> val (peak_min_value pf)" by (simp add: pf_def)
  show ?thesis using m by (simp add: series_peaks_def k g)
qed

lemma dupl_find_peaks:
  "find_pfx_n_cfl_peaks dupl_detector = Inr ([(202214, [2])], [(202214, [2])])"
proof -
  have p: "get_ases_with_peak [(202214, dupl_pfx_series)]
     [(''max_nb_peaks'', 2), (''percent_similarity'', 9 / 10), (''percent_std'', 9 / 10),
      (''peak_min_value'', 10)] = Inr [(202214, [2])]"
    using dupl_pfx_peaks
    by (simp add: get_ases_with_peak_def get_ases_with_peak_step_def keys_def dict_get_def)
  have c: "get_ases_with_peak [(202214, dupl_cfl_series)]
     [(''max_nb_peaks'', 2), (''percent_similarity'', 9 / 10), (''percent_std'', 9 / 10),
      (''peak_min_value'', 5)] = Inr [(202214, [2])]"
    using dupl_cfl_peaks
    by (simp add: get_ases_with_peak_def get_ases_with_peak_step_def keys_def dict_get_def)
  show ?thesis
    by (simp add: find_pfx_n_cfl_peaks_def dupl_detector_def default_peak_params p c)
qed

lemma dupl_run:
  "get_route_leaks 3 dupl_detector []
     = (dupl_detector, Inr [(202214, dupl_record), (3215, dupl_record)])"
proof -
  have s: "dupl_detector\<lparr>params := params dupl_detector\<rparr> = dupl_detector" by simp
  have g: "map snd (pfx_data dupl_detector) = [dupl_pfx_series, dupl_pfx_series]"
    by (simp add: dupl_detector_def dupl_pfx_store_def)
  have l: "\<not> length dupl_pfx_series < 3" by (simp add: dupl_pfx_series_def)
  have b: "put_duplicates_back [(202214, [3215])] [(202214, [2])]
      = Inr [(202214, [2]), (3215, [2])]"
    by (simp add: put_duplicates_back_def keys_def dict_get_default_def put_back_step_def
        dict_get_def)
  have d: "pfx_dupl_ases dupl_detector = [(202214, [3215])]"
    "cfl_dupl_ases dupl_detector = [(202214, [3215])]"
    by (simp_all add: dupl_detector_def)
  have r1: "route_leaks_step dupl_detector [(202214, [2]), (3215, [2])]
       [(202214, [2]), (3215, [2])] 202214 [] = Inr [(202214, dupl_record)]"
    by (simp add: route_leaks_step_def dict_get_def)
       (simp add: dupl_detector_def dupl_pfx_store_def dupl_cfl_store_def map_leaks_indexes_def
          dupl_record_def)
  have r2: "route_leaks_step dupl_detector [(202214, [2]), (3215, [2])]
       [(202214, [2]), (3215, [2])] 3215 [(202214, dupl_record)]
       = Inr [(202214, dupl_record), (3215, dupl_record)]"
    by (simp add: route_leaks_step_def dict_get_def)
       (simp add: dupl_detector_def dupl_pfx_store_def dupl_cfl_store_def map_leaks_indexes_def
          dupl_record_def)
  show ?thesis
    by (simp add: get_route_leaks_def g l s dupl_find_peaks d b r1 r2 keys_def)
qed

subsection \<open>Keys of the result\<close>

lemma detected_in_both:
  assumes "snd (get_route_leaks m self kw) = Inr res"
  shows "set (keys res) \<subseteq> set (keys (pfx_data self)) \<inter> set (keys (cfl_data self))"
proof (cases "map snd (pfx_data self)")
  case Nil
  with assms show ?thesis by (simp add: get_route_leaks_def)
next
  case (Cons s ss)
  show ?thesis
  proof (cases "length s < m")
    case True
    with Cons assms show ?thesis by (simp add: get_route_leaks_def keys_def)
  next
    case False
    define self' where "self' = self\<lparr>params := fold set_known_param kw (params self)\<rparr>"
    from Cons False assms obtain pp cp where
      run: "foldM (route_leaks_step self' pp cp) (keys cp) [] = Inr res"
      by (auto simp: get_route_leaks_def Let_def bind_err_Inr_iff self'_def)
    have "set (keys res) \<subseteq> set (keys (pfx_data self')) \<inter> set (keys (cfl_data self'))"
    proof (rule foldM_invariant [OF run])
      show "set (keys ([] :: route_leaks)) \<subseteq> set (keys (pfx_data self')) \<inter> set (keys (cfl_data self'))"
        by (simp add: keys_def)
    next
      fix x t t'
      assume "route_leaks_step self' pp cp x t = Inr t'"
        and "set (keys t) \<subseteq> set (keys (pfx_data self')) \<inter> set (keys (cfl_data self'))"
      then show "set (keys t') \<subseteq> set (keys (pfx_data self')) \<inter> set (keys (cfl_data self'))"
        by (rule route_leaks_step_keys)
    qed
    then show ?thesis by (simp add: self'_def)
  qed
qed

section \<open>Properties of the parameter fitter\<close>

lemma get_3lr_res_bounds:
  assumes "(sc, i1, i2) \<in> set (get_3lr_res lr_score n)"
  shows "3 \<le> i1 \<and> i1 + 2 \<le> i2 \<and> i2 < n"
  using assms by (auto simp: get_3lr_res_def)

lemma fold_max_key_in_set:
  "fold (\<lambda>y best. if k y > k best then y else best) xs x \<in> set (x # xs)"
  by (induction xs arbitrary: x) auto

lemma py_max_key_in_set: "py_max_key k xs = Inr b \<Longrightarrow> b \<in> set xs"
  using fold_max_key_in_set [of k "tl xs" "hd xs"] by (cases xs) auto

lemma best_case_bounds:
  assumes "best_case lr_score pts = Inr (sc, i1, i2)"
  shows "3 \<le> i1 \<and> i1 + 2 \<le> i2 \<and> i2 < length pts"
  using py_max_key_in_set [OF assms [unfolded best_case_def]] by (rule get_3lr_res_bounds)

lemma map_lr_value_in_grid:
  assumes "1 \<le> i" and "i \<le> length pts"
  shows "map_lr_value_to_real_value pts i = Inr (pts ! (i - 1))"
proof -
  have "nat (int i - 1) = i - 1" by simp
  with assms show ?thesis by (auto simp: map_lr_value_to_real_value_def py_index_def)
qed

lemma get_param_optimized_values_eq:
  assumes "dict_get lr_points (param_name sel) = Inr pts"
    and "best_case lr_score pts = Inr (sc, i1, i2)"
  shows "get_param_optimized_values lr_score sel = Inr [sc, pts ! (i1 - 1), pts ! (i2 - 1)]"
proof -
  from best_case_bounds [OF assms(2)] have b: "3 \<le> i1" "i1 + 2 \<le> i2" "i2 < length pts" by simp_all
  have v1: "map_lr_value_to_real_value pts i1 = Inr (pts ! (i1 - 1))"
    using b by (intro map_lr_value_in_grid) simp_all
  have v2: "map_lr_value_to_real_value pts i2 = Inr (pts ! (i2 - 1))"
    using b by (intro map_lr_value_in_grid) simp_all
  show ?thesis
    by (simp add: get_param_optimized_values_def lin_reg_pts_def assms v1 v2)
qed

lemma ParamValue_new_eqs:
  "ParamValue_new ''pfx_peak_min_value'' = Inr \<lparr>param_name = ''pfx_peak_min_value'', selective_index = 1\<rparr>"
  "ParamValue_new ''cfl_peak_min_value'' = Inr \<lparr>param_name = ''cfl_peak_min_value'', selective_index = 1\<rparr>"
  "ParamValue_new ''percent_similarity'' = Inr \<lparr>param_name = ''percent_similarity'', selective_index = 1\<rparr>"
  "ParamValue_new ''max_nb_peaks'' = Inr \<lparr>param_name = ''max_nb_peaks'', selective_index = 0\<rparr>"
  "ParamValue_new ''percent_std'' = Inr \<lparr>param_name = ''percent_std'', selective_index = 0\<rparr>"
  by (simp_all add: ParamValue_new_def ParamValue_subclasses_def)

lemma best_value_of_std:
  assumes "dict_get lr_points (param_name sel) = Inr pts"
    and "best_case lr_score pts = Inr (sc, i1, i2)"
  shows "best_value_of lr_score sel ''percent_std'' = Inr (pts ! (i2 - 1))"
  by (simp add: best_value_of_def get_param_optimized_values_eq [OF assms] py_index_def)

lemma best_value_of_second:
  assumes "dict_get lr_points (param_name sel) = Inr pts"
    and "best_case lr_score pts = Inr (sc, i1, i2)"
    and "param \<noteq> ''percent_std''" and "selective_index sel = 1"
  shows "best_value_of lr_score sel param = Inr (pts ! (i2 - 1))"
  using assms(3,4)
  by (simp add: best_value_of_def get_param_optimized_values_eq [OF assms(1,2)] py_index_def)

lemma best_value_of_first:
  assumes "dict_get lr_points (param_name sel) = Inr pts"
    and "best_case lr_score pts = Inr (sc, i1, i2)"
    and "param \<noteq> ''percent_std''" and "selective_index sel = 0"
  shows "best_value_of lr_score sel param = Inr (pts ! (i1 - 1))"
  using assms(3,4)
  by (simp add: best_value_of_def get_param_optimized_values_eq [OF assms(1,2)] py_index_def)

text \<open>The fit exists on every grid of at least six points.\<close>

lemma get_3lr_res_head:
  assumes "6 \<le> n"
  shows "\<exists>rest. get_3lr_res lr_score n
     = ((lr_score 1 3 + lr_score 3 5 + lr_score 5 n) / 3, 3, 5) # rest"
proof -
  have three: "(1 :: nat) + 2 = 3" and five: "(3 :: nat) + 2 = 5" by simp_all
  have lt: "3 < n" "5 < n" using assms by simp_all
  have a: "[1 + 2..<n] = 3 # [Suc 3..<n]"
    unfolding three by (rule upt_conv_Cons [OF lt(1)])
  have b: "[3 + 2..<n] = 5 # [Suc 5..<n]"
    unfolding five by (rule upt_conv_Cons [OF lt(2)])
  show ?thesis
    unfolding get_3lr_res_def Let_def a list.map concat.simps b append_Cons by blast
qed

lemma best_case_exists:
  assumes "6 \<le> length pts"
  shows "\<exists>sc i1 i2. best_case lr_score pts = Inr (sc, i1, i2)"
proof -
  from get_3lr_res_head [OF assms, of lr_score] obtain rest where
    "get_3lr_res lr_score (length pts)
       = ((lr_score 1 3 + lr_score 3 5 + lr_score 5 (length pts)) / 3, 3, 5) # rest" by blast
  then obtain b where "best_case lr_score pts = Inr b" by (simp add: best_case_def)
  then show ?thesis by (cases b) auto
qed

lemma lr_points_grids:
  "dict_get lr_points ''cfl_peak_min_value'' = Inr (map real [0..<50])"
  "dict_get lr_points ''pfx_peak_min_value'' = Inr (map real [0..<50])"
  "dict_get lr_points ''percent_std'' = Inr (map (\<lambda>elt. real elt / 10) [1..<11])"
  "dict_get lr_points ''percent_similarity'' = Inr (map (\<lambda>elt. real elt / 10) [1..<11])"
  "dict_get lr_points ''max_nb_peaks'' = Inr (map real [1..<51])"
  by (simp_all add: dict_get_def lr_points_def)

lemma fold_max_key_flat:
  fixes k :: "'a \<Rightarrow> real"
  assumes "\<forall>y \<in> set xs. k y \<le> k x"
  shows "fold (\<lambda>y best. if k y > k best then y else best) xs x = x"
  using assms
proof (induction xs)
  case Nil
  then show ?case by simp
next
  case (Cons a xs)
  then have "\<not> k a > k x" by (simp add: not_less)
  with Cons show ?case by simp
qed

lemma best_case_flat:
  assumes "6 \<le> length pts"
  shows "best_case flat_score pts = Inr (1, 3, 5)"
proof -
  from get_3lr_res_head [OF assms, of flat_score] obtain rest where
    r: "get_3lr_res flat_score (length pts) = (1, 3, 5) # rest"
    by (auto simp: flat_score_def)
  have "\<forall>y \<in> set rest. fst y \<le> fst (1 :: real, 3 :: nat, 5 :: nat)"
  proof
    fix y assume "y \<in> set rest"
    then have "y \<in> set (get_3lr_res flat_score (length pts))" using r by simp
    then show "fst y \<le> fst (1 :: real, 3 :: nat, 5 :: nat)"
      by (auto simp: get_3lr_res_def flat_score_def)
  qed
  from fold_max_key_flat [OF this] show ?thesis by (simp add: best_case_def r)
qed

lemma fitter_returns:
  assumes "param \<in> set five_names"
  shows "\<exists>pts sc i1 i2 v. dict_get lr_points param = Inr pts \<and>
     best_case lr_score pts = Inr (sc, i1, i2) \<and> get_best_param_value lr_score param = Inr v"
proof -
  from assms obtain pts sel where g: "dict_get lr_points param = Inr pts"
    and l: "6 \<le> length pts" and n: "ParamValue_new param = Inr sel"
    and pn: "param_name sel = param" and si: "selective_index sel < 2"
    by (auto simp: five_names_def lr_points_grids ParamValue_new_eqs)
  from best_case_exists [OF l, of lr_score] obtain sc i1 i2 where
    b: "best_case lr_score pts = Inr (sc, i1, i2)" by blast
  from g pn have g': "dict_get lr_points (param_name sel) = Inr pts" by simp
  have "\<exists>v. best_value_of lr_score sel param = Inr v"
  proof (cases "param = ''percent_std''")
    case True
    with best_value_of_std [OF g' b] show ?thesis by blast
  next
    case False
    from si have "selective_index sel = 0 \<or> selective_index sel = 1" by auto
    with best_value_of_first [OF g' b False] best_value_of_second [OF g' b False]
    show ?thesis by auto
  qed
  with g b n show ?thesis by (auto simp: get_best_param_value_def)
qed

section \<open>Properties of the feature extraction\<close>













subsection \<open>A small run of the feature extraction\<close>






















section \<open>The claims about FindPeaks\<close>

lemma distinct_candidates: "distinct (candidates self)"
  by (simp add: candidates_eq)

lemma length_filter_other:
  assumes "distinct xs" and "i \<in> set xs" and "P i"
  shows "length (filter P xs) = length (filter (\<lambda>j. j \<noteq> i \<and> P j) xs) + 1"
  using assms
proof (induction xs)
  case Nil
  then show ?case by simp
next
  case (Cons x xs)
  show ?case
  proof (cases "x = i")
    case True
    with Cons.prems have "i \<notin> set xs" by simp
    then have "filter (\<lambda>j. j \<noteq> i \<and> P j) xs = filter P xs"
      by (intro filter_cong) auto
    with True Cons.prems show ?thesis by simp
  next
    case False
    with Cons show ?thesis by simp
  qed
qed

lemma three_equal_candidates: "candidates three_equal_peaks = [Suc 0, 3, 5]"
  by (simp add: candidates_eq three_equal_peaks_def upt_conv_Cons spec_candidate_def
      spec_local_max_def spec_magnitude_def is_close_to_abs_max_def)

lemma three_equal_kept: "few_enough three_equal_peaks [Suc 0, 3, 5] = []"
  by (simp add: few_enough_def has_few_enough_peaks_def three_equal_peaks_def)

lemma two_equal_candidates: "candidates two_equal_peaks = [2, 4]"
  by (simp add: candidates_eq two_equal_peaks_def upt_conv_Cons spec_candidate_def
      spec_local_max_def spec_magnitude_def is_close_to_abs_max_def)

text \<open>
  C4, as the code has it. Among the indices that pass the local-maximum, magnitude and
  closeness rules, index \<open>i\<close> survives the crowding rule exactly when the candidates of
  value at least \<open>series[i]\<close>, index \<open>i\<close> itself included, number at most \<open>max_nb_peaks\<close>:
  that is, when the other such candidates number at most \<open>max_nb_peaks - 1\<close>. The count
  runs over all candidates, not over the indices that survive.
\<close>

theorem crowding_counts_the_index_itself:
  "i \<in> set (few_enough self (candidates self)) \<longleftrightarrow>
     i \<in> set (candidates self) \<and>
     real (nb_other_similar self (candidates self) i) + 1 \<le> max_nb_peaks self"
proof (cases "i \<in> set (candidates self)")
  case False
  then show ?thesis by (simp add: few_enough_def)
next
  case True
  have "length (filter (\<lambda>elt. val (data self ! elt) \<ge> val (data self ! i)) (candidates self))
      = nb_other_similar self (candidates self) i + 1"
    unfolding nb_other_similar_def
    by (rule length_filter_other [OF distinct_candidates True]) simp
  with True show ?thesis
    by (simp add: few_enough_def has_few_enough_peaks_def add.commute)
qed

theorem crowding_counts_the_index_itself_witness:
  "1 \<notin> set (few_enough three_equal_peaks (candidates three_equal_peaks)) \<and>
   2 \<in> set (few_enough two_equal_peaks (candidates two_equal_peaks))"
  using crowding_counts_the_index_itself [of 1 three_equal_peaks]
    crowding_counts_the_index_itself [of 2 two_equal_peaks]
  by (simp add: three_equal_candidates two_equal_candidates nb_other_similar_def)
     (simp add: three_equal_peaks_def two_equal_peaks_def)

text \<open>
  C4 as the specification states it fails on three peaks of equal height with
  \<open>max_nb_peaks = 2\<close>: index 1 has two other candidates of at least its value, and no
  other surviving index at all, so "at most \<open>max_nb_peaks\<close> other kept indices" holds on
  both readings; yet the code drops index 1, and \<open>get_big_maxes\<close> returns no peak.
\<close>

theorem crowding_claim_counterexample:
  "\<not> (1 \<in> set (few_enough three_equal_peaks (candidates three_equal_peaks)) \<longleftrightarrow>
       real (nb_other_similar three_equal_peaks
               (few_enough three_equal_peaks (candidates three_equal_peaks)) 1)
         \<le> max_nb_peaks three_equal_peaks) \<and>
   \<not> (1 \<in> set (few_enough three_equal_peaks (candidates three_equal_peaks)) \<longleftrightarrow>
       real (nb_other_similar three_equal_peaks (candidates three_equal_peaks) 1)
         \<le> max_nb_peaks three_equal_peaks) \<and>
   1 \<in> set (candidates three_equal_peaks) \<and>
   get_big_maxes three_equal_peaks = Inr three_equal_peaks"
proof -
  have "get_big_maxes three_equal_peaks = Inr three_equal_peaks"
    by (simp add: get_big_maxes_def Let_def three_equal_candidates three_equal_kept)
       (simp add: three_equal_peaks_def)
  then show ?thesis
    by (simp add: three_equal_candidates three_equal_kept nb_other_similar_def)
       (simp add: three_equal_peaks_def)
qed

text \<open>
  C5. At every interior index \<open>i\<close> of a series of at least three values, the value of
  \<open>prev_variation\<close> when the loop of \<open>get_big_maxes\<close> reaches \<open>i\<close> is
  \<open>series[i] - series[i-1]\<close>, at \<open>i = 1\<close> (the seed) as at every later index. So the test
  \<open>_is_big_enough(prev_variation, cur_variation)\<close> is the symmetric magnitude rule, and
  the indices the loop collects are those that pass the local-maximum, magnitude and
  closeness rules.
\<close>

theorem magnitude_rule_is_symmetric:
  assumes "3 \<le> length (data self)" and "1 \<le> i" and "i \<le> length (data self) - 2"
  shows "prev_variation_at self i = val (data self ! i) - val (data self ! (i - 1)) \<and>
     (is_big_enough self (prev_variation_at self i) (val (data self ! (i + 1)) - val (data self ! i))
        \<longleftrightarrow> val (data self ! i) - val (data self ! (i - 1)) > val (peak_min_value self)
           \<and> val (data self ! i) - val (data self ! (i + 1)) > val (peak_min_value self)) \<and>
     (i \<in> set (candidates self)
        \<longleftrightarrow> spec_local_max self i \<and> spec_magnitude self i \<and> is_close_to_abs_max self i)"
proof -
  have pv: "prev_variation_at self i = val (data self ! i) - val (data self ! (i - 1))"
    by (rule prev_variation_at_eq [OF assms(2)])
  have "i \<in> set [1..<length (data self) - 1]" using assms by simp
  then have "i \<in> set (candidates self) \<longleftrightarrow> spec_candidate self i"
    unfolding candidates_eq by simp
  with pv show ?thesis by (simp add: is_big_enough_def spec_candidate_def)
qed

theorem magnitude_rule_is_symmetric_witness:
  "prev_variation_at two_equal_peaks 1 = 0 \<and> prev_variation_at two_equal_peaks 2 = 20 \<and>
   \<not> is_big_enough two_equal_peaks (prev_variation_at two_equal_peaks 1) 20 \<and>
   is_big_enough two_equal_peaks (prev_variation_at two_equal_peaks 2) (- 20) \<and>
   1 \<notin> set (candidates two_equal_peaks) \<and> 2 \<in> set (candidates two_equal_peaks)"
proof -
  have l: "3 \<le> length (data two_equal_peaks)" by (simp add: two_equal_peaks_def)
  have a: "(1 :: nat) \<le> 1" "(1 :: nat) \<le> length (data two_equal_peaks) - 2"
    by (simp_all add: two_equal_peaks_def)
  have b: "(1 :: nat) \<le> 2" "(2 :: nat) \<le> length (data two_equal_peaks) - 2"
    by (simp_all add: two_equal_peaks_def)
  from magnitude_rule_is_symmetric [OF l a] magnitude_rule_is_symmetric [OF l b]
  show ?thesis
    by (simp add: two_equal_peaks_def spec_local_max_def spec_magnitude_def
        is_close_to_abs_max_def is_big_enough_def)
qed

text \<open>
  C6. On a series whose number of zeros is 0 or at least \<open>MAX_NB_ZERO_TO_RM\<close> (5),
  \<open>speculate_missing_values\<close> returns without raising and leaves the series as it is, so
  a second run gives the same series again.
\<close>

theorem smoothing_unchanged:
  assumes "count_zero d = 0 \<or> MAX_NB_ZERO_TO_RM \<le> count_zero d"
  shows "speculate_missing_values pmv d = Inr d \<and>
     bind_err (speculate_missing_values pmv d) (speculate_missing_values pmv) = Inr d"
proof -
  have "speculate_missing_values pmv d = Inr d"
    using assms by (auto simp: speculate_missing_values_def)
  then show ?thesis by simp
qed

theorem smoothing_unchanged_witness:
  "speculate_missing_values (PInt 10) scenario1_series = Inr scenario1_series \<and>
   speculate_missing_values (PInt 10) five_zeros = Inr five_zeros \<and>
   MAX_NB_ZERO_TO_RM = 5 \<and> count_zero five_zeros = 5 \<and> count_zero scenario1_series = 0"
proof -
  have a: "count_zero scenario1_series = 0 \<or> MAX_NB_ZERO_TO_RM \<le> count_zero scenario1_series"
    by (simp add: count_zero_def scenario1_series_def)
  have b: "count_zero five_zeros = 0 \<or> MAX_NB_ZERO_TO_RM \<le> count_zero five_zeros"
    by (simp add: count_zero_def five_zeros_def MAX_NB_ZERO_TO_RM_def)
  from smoothing_unchanged [OF a, of "PInt 10"] smoothing_unchanged [OF b, of "PInt 10"]
  show ?thesis
    by (simp add: count_zero_def five_zeros_def scenario1_series_def MAX_NB_ZERO_TO_RM_def)
qed

text \<open>
  Outside that range the series does change: the smoothing scenarios of the tests.
\<close>

lemma smoothing_one_zero:
  "speculate_missing_values (PInt 10) [PInt 5, PInt 5, PInt 5, PInt 0, PInt 5, PInt 5]
     = Inr [PInt 5, PInt 5, PInt 5, PInt 5, PInt 5, PInt 5]"
  by (simp add: speculate_missing_values_def count_zero_def MAX_NB_ZERO_TO_RM_def upt_conv_Cons
      speculate_step_def find_mock_value_def Let_def)

lemma smoothing_next_to_peak:
  "speculate_missing_values (PInt 100) [PInt 5, PInt 5, PInt 25, PInt 0, PInt 5, PInt 5]
     = Inr [PInt 5, PInt 5, PInt 25, PInt 15, PInt 5, PInt 5]"
  by (simp add: speculate_missing_values_def count_zero_def MAX_NB_ZERO_TO_RM_def upt_conv_Cons
      speculate_step_def find_mock_value_def Let_def)

lemma smoothing_peak_replaced_by_average:
  "speculate_missing_values (PInt 10) [PInt 5, PInt 5, PInt 24, PInt 0, PInt 5, PInt 5]
     = Inr [PInt 5, PInt 5, PInt 24, PFloat (69 / 10), PInt 5, PInt 5]"
  by (simp add: speculate_missing_values_def count_zero_def MAX_NB_ZERO_TO_RM_def upt_conv_Cons
      speculate_step_def find_mock_value_def Let_def)

section \<open>The claims about the leak detector\<close>

text \<open>
  C1. Whatever the two stores, the parameters, the keyword arguments and the length
  threshold, when \<open>get_route_leaks\<close> returns a result, every AS of the result is a key
  of the prefix store and of the conflict store. This holds after the peaks of the
  coalesced duplicates have been given back to their ASes, since a leak record is built
  from the two series of its AS. (On a non-empty prefix store, with distinct keys and
  series of at least two values in both stores, the constructor and the call do return:
  \<open>detection_returns\<close>.)
\<close>

theorem detected_ases_in_both_stores:
  assumes "PyFindRouteLeaks_init pfx cfl pfx_min cfl_min nb sim std st = Inr self"
    and "snd (get_route_leaks m self kw) = Inr res"
  shows "set (keys res) \<subseteq> set (keys pfx) \<inter> set (keys cfl)"
  using detected_in_both [OF assms(2)] PyFindRouteLeaks_init_sound [OF assms(1)] by simp

theorem detected_ases_in_both_stores_witness:
  "PyFindRouteLeaks_init dupl_pfx_store dupl_cfl_store (PInt 10) (PInt 5) (PInt 2)
     (PFloat (9 / 10)) (PFloat (9 / 10)) None = Inr dupl_detector \<and>
   snd (get_route_leaks 3 dupl_detector []) = Inr [(202214, dupl_record), (3215, dupl_record)] \<and>
   set (keys [(202214, dupl_record), (3215, dupl_record)])
     \<subseteq> set (keys dupl_pfx_store) \<inter> set (keys dupl_cfl_store)"
proof -
  have r: "snd (get_route_leaks 3 dupl_detector []) = Inr [(202214, dupl_record), (3215, dupl_record)]"
    by (simp add: dupl_run)
  from detected_ases_in_both_stores [OF dupl_init r] dupl_init r show ?thesis by simp
qed

text \<open>
  C2. For every AS \<open>a\<close> of a returned result, the days of its leak record are the images
  of a non-empty list of indices \<open>i\<close>, each with \<open>0 < i < len - 1\<close> for the prefix series
  and for the conflict series of \<open>a\<close>, and each a member of the peaks computed on the
  prefix series and of the peaks computed on the conflict series of \<open>a\<close>, under the
  parameters the detector holds after the call. With no start date the days are the
  indices themselves.
\<close>

theorem leak_indices_are_common_peaks:
  assumes init: "PyFindRouteLeaks_init pfx cfl pfx_min cfl_min nb sim std st = Inr self"
    and run: "get_route_leaks m self kw = (self', Inr res)"
    and rec: "map_of res a = Some r"
  shows "\<exists>ps cs pk ck idxs.
       map_of pfx a = Some ps \<and> map_of cfl a = Some cs \<and>
       side_peaks (params self') ''pfx_peak_min_value'' ps = Inr pk \<and>
       side_peaks (params self') ''cfl_peak_min_value'' cs = Inr ck \<and>
       leaks r = map_leaks_indexes st idxs \<and> idxs \<noteq> [] \<and>
       (\<forall>i \<in> set idxs. 0 < i \<and> i < length ps - 1 \<and> i < length cs - 1 \<and> i \<in> set pk \<and> i \<in> set ck)"
proof -
  note S = PyFindRouteLeaks_init_sound [OF init]
  from rec have ne: "res \<noteq> []" by auto
  obtain s ss where nonempty: "map snd (pfx_data self) = s # ss"
    using run by (cases "map snd (pfx_data self)") (simp_all add: get_route_leaks_def)
  have long: "\<not> length s < m"
  proof
    assume "length s < m"
    with nonempty have "get_route_leaks m self kw = (self, Inr [])"
      by (simp add: get_route_leaks_def)
    with run ne show False by simp
  qed
  define self2 where "self2 = self\<lparr>params := fold set_known_param kw (params self)\<rparr>"
  have unfolded: "get_route_leaks m self kw = (self2,
      bind_err (find_pfx_n_cfl_peaks self2) (\<lambda>pc.
      bind_err (put_duplicates_back (pfx_dupl_ases self2) (fst pc)) (\<lambda>pfx_peaks.
      bind_err (put_duplicates_back (cfl_dupl_ases self2) (snd pc)) (\<lambda>cfl_peaks.
        foldM (route_leaks_step self2 pfx_peaks cfl_peaks) (keys cfl_peaks) []))))"
    using nonempty long by (simp add: get_route_leaks_def Let_def self2_def)
  from run unfolded have self': "self' = self2" by simp
  have "snd (get_route_leaks m self kw) = Inr res" using run by simp
  then have "bind_err (find_pfx_n_cfl_peaks self2) (\<lambda>pc.
      bind_err (put_duplicates_back (pfx_dupl_ases self2) (fst pc)) (\<lambda>pfx_peaks.
      bind_err (put_duplicates_back (cfl_dupl_ases self2) (snd pc)) (\<lambda>cfl_peaks.
        foldM (route_leaks_step self2 pfx_peaks cfl_peaks) (keys cfl_peaks) []))) = Inr res"
    unfolding unfolded by simp
  then obtain pc where f: "find_pfx_n_cfl_peaks self2 = Inr pc"
    and r1: "bind_err (put_duplicates_back (pfx_dupl_ases self2) (fst pc)) (\<lambda>pfx_peaks.
      bind_err (put_duplicates_back (cfl_dupl_ases self2) (snd pc)) (\<lambda>cfl_peaks.
        foldM (route_leaks_step self2 pfx_peaks cfl_peaks) (keys cfl_peaks) [])) = Inr res"
    unfolding bind_err_Inr_iff by blast
  from r1 obtain pp where bp: "put_duplicates_back (pfx_dupl_ases self2) (fst pc) = Inr pp"
    and r2: "bind_err (put_duplicates_back (cfl_dupl_ases self2) (snd pc)) (\<lambda>cfl_peaks.
        foldM (route_leaks_step self2 pp cfl_peaks) (keys cfl_peaks) []) = Inr res"
    unfolding bind_err_Inr_iff by blast
  from r2 obtain cp where bc: "put_duplicates_back (cfl_dupl_ases self2) (snd pc) = Inr cp"
    and loop: "foldM (route_leaks_step self2 pp cp) (keys cp) [] = Inr res"
    unfolding bind_err_Inr_iff by blast
  have fields: "pfx_data self2 = pfx" "cfl_data self2 = cfl" "start self2 = st"
    using S by (simp_all add: self2_def)
  have "\<exists>kwp kwc. peak_params (params self2) ''pfx_peak_min_value'' = Inr kwp
       \<and> peak_params (params self2) ''cfl_peak_min_value'' = Inr kwc
       \<and> peaks_sound (pfx_data self2) kwp pp \<and> peaks_sound (cfl_data self2) kwc cp"
    by (rule detected_peaks_sound [OF f bp bc]) (use S in \<open>simp_all add: self2_def\<close>)
  then obtain kwp kwc where
    kwp: "peak_params (params self2) ''pfx_peak_min_value'' = Inr kwp"
    and kwc: "peak_params (params self2) ''cfl_peak_min_value'' = Inr kwc"
    and sp: "peaks_sound pfx kwp pp" and sc: "peaks_sound cfl kwc cp"
    using fields by auto
  from route_leaks_loop_sound [OF loop] rec obtain pk ck pd cd where
    pk: "map_of pp a = Some pk" and ck: "map_of cp a = Some ck"
    and pd: "map_of pfx a = Some pd" and cd: "map_of cfl a = Some cd"
    and nonnil: "filter (\<lambda>i. i \<in> set pk) ck \<noteq> []"
    and r: "r = \<lparr>leaks = map_leaks_indexes st (filter (\<lambda>i. i \<in> set pk) ck),
                leak_pfx_data = pd, leak_cfl_data = cd\<rparr>"
    unfolding leaks_sound_def fields by blast
  from side_peaks_sound [OF kwp sp pk] pd
  have side_p: "side_peaks (params self2) ''pfx_peak_min_value'' pd = Inr pk" by simp
  from side_peaks_sound [OF kwc sc ck] cd
  have side_c: "side_peaks (params self2) ''cfl_peak_min_value'' cd = Inr ck" by simp
  have sp': "series_peaks pd kwp = Inr pk" using side_p kwp by (simp add: side_peaks_def)
  have sc': "series_peaks cd kwc = Inr ck" using side_c kwc by (simp add: side_peaks_def)
  have "\<forall>i \<in> set (filter (\<lambda>i. i \<in> set pk) ck).
          0 < i \<and> i < length pd - 1 \<and> i < length cd - 1 \<and> i \<in> set pk \<and> i \<in> set ck"
  proof
    fix i assume "i \<in> set (filter (\<lambda>i. i \<in> set pk) ck)"
    then have i: "i \<in> set pk" "i \<in> set ck" by simp_all
    from series_peaks_bounds [OF sp' i(1)] series_peaks_bounds [OF sc' i(2)] i
    show "0 < i \<and> i < length pd - 1 \<and> i < length cd - 1 \<and> i \<in> set pk \<and> i \<in> set ck"
      by simp
  qed
  then have "map_of pfx a = Some pd \<and> map_of cfl a = Some cd \<and>
       side_peaks (params self2) ''pfx_peak_min_value'' pd = Inr pk \<and>
       side_peaks (params self2) ''cfl_peak_min_value'' cd = Inr ck \<and>
       leaks r = map_leaks_indexes st (filter (\<lambda>i. i \<in> set pk) ck) \<and>
       filter (\<lambda>i. i \<in> set pk) ck \<noteq> [] \<and>
       (\<forall>i \<in> set (filter (\<lambda>i. i \<in> set pk) ck).
          0 < i \<and> i < length pd - 1 \<and> i < length cd - 1 \<and> i \<in> set pk \<and> i \<in> set ck)"
    using pd cd side_p side_c nonnil r by simp
  then show ?thesis unfolding self' by blast
qed

theorem leak_indices_are_common_peaks_witness:
  "\<exists>ps cs pk ck idxs.
       map_of scenario1_store 12322 = Some ps \<and> map_of scenario1_store 12322 = Some cs \<and>
       side_peaks (params scenario1_detector) ''pfx_peak_min_value'' ps = Inr pk \<and>
       side_peaks (params scenario1_detector) ''cfl_peak_min_value'' cs = Inr ck \<and>
       [Day_index 2] = map_leaks_indexes None idxs \<and> idxs \<noteq> [] \<and>
       (\<forall>i \<in> set idxs. 0 < i \<and> i < length ps - 1 \<and> i < length cs - 1 \<and> i \<in> set pk \<and> i \<in> set ck)"
proof -
  have run: "get_route_leaks 3 scenario1_detector [] = (scenario1_detector, Inr [(12322, scenario1_record)])"
    using scenario1_run [of 3] by (simp add: scenario1_record_def)
  have rec: "map_of [(12322 :: asn, scenario1_record)] 12322 = Some scenario1_record" by simp
  from leak_indices_are_common_peaks [OF scenario1_init run rec]
  show ?thesis by (simp add: scenario1_record_def)
qed

text \<open>
  C3, as the code has it. The detector built from the two stores of boundary scenario 1
  with the default parameters returns \<open>{A: leaks [2]}\<close>, with the two series, exactly when
  the length threshold is at most 6, the length of the series (the tests run with
  \<open>MIN_NB_DAYS = 3\<close>); with a greater threshold it returns the empty result.
\<close>

theorem scenario1_result_by_threshold:
  "PyFindRouteLeaks_init scenario1_store scenario1_store (PInt 10) (PInt 5) (PInt 2)
     (PFloat (9 / 10)) (PFloat (9 / 10)) None = Inr scenario1_detector \<and>
   snd (get_route_leaks m scenario1_detector [])
     = (if 6 < m then Inr [] else Inr [(12322, scenario1_record)])"
proof (cases "6 < m")
  case True
  with scenario1_run_short [OF True] scenario1_init show ?thesis by simp
next
  case False
  then have "m \<le> 6" by simp
  from scenario1_run [OF this] False scenario1_init show ?thesis
    by (simp add: scenario1_record_def)
qed

theorem scenario1_result_by_threshold_witness:
  "snd (get_route_leaks 3 scenario1_detector []) = Inr [(12322, scenario1_record)] \<and>
   leaks scenario1_record = [Day_index 2]"
  using scenario1_result_by_threshold [of 3] by (simp add: scenario1_record_def)

text \<open>
  C3 as stated fails with the threshold of the source, \<open>MIN_NB_DAYS = 31\<close>: the series
  of scenario 1 have six values, the length guard returns the empty result, and AS \<open>A\<close>
  is not in it.
\<close>

theorem scenario1_default_threshold_counterexample:
  "PyFindRouteLeaks_init scenario1_store scenario1_store (PInt 10) (PInt 5) (PInt 2)
     (PFloat (9 / 10)) (PFloat (9 / 10)) None = Inr scenario1_detector \<and>
   MIN_NB_DAYS = 31 \<and>
   snd (get_route_leaks MIN_NB_DAYS scenario1_detector []) = Inr [] \<and>
   dict_get ([] :: route_leaks) 12322 = Inl KeyError"
proof -
  have "6 < MIN_NB_DAYS" by (simp add: MIN_NB_DAYS_def)
  from scenario1_run_short [OF this] scenario1_init show ?thesis
    by (simp add: MIN_NB_DAYS_def dict_get_def)
qed

text \<open>
  C9, as the code has it. A call of \<open>get_route_leaks\<close> (of either detector) leaves the two
  stores and the key set of the stored parameters as they are, and leaves every
  parameter that is not named by a keyword argument at its value; with no keyword
  argument the mapping is unchanged. When the length guard passes, each keyword argument
  of the call that names a stored parameter overwrites it with \<open>float(value)\<close>, however
  many keyword arguments the call has, and the new value stays in the detector after the
  call. The keyword arguments of a Python call are a dict, so their names are distinct.
\<close>

theorem detection_overwrites_named_params:
  "params (fst (get_route_leaks m self [])) = params self \<and>
   params (fst (ru_get_route_leaks process_data m rself [])) = params rself \<and>
   keys (params (fst (get_route_leaks m self kw))) = keys (params self) \<and>
   keys (params (fst (ru_get_route_leaks process_data m rself kw))) = keys (params rself) \<and>
   pfx_data (fst (get_route_leaks m self kw)) = pfx_data self \<and>
   cfl_data (fst (get_route_leaks m self kw)) = cfl_data self \<and>
   pfx_data (fst (ru_get_route_leaks process_data m rself kw)) = pfx_data rself \<and>
   cfl_data (fst (ru_get_route_leaks process_data m rself kw)) = cfl_data rself \<and>
   (name \<notin> set (keys kw) \<longrightarrow>
      map_of (params (fst (get_route_leaks m self kw))) name = map_of (params self) name \<and>
      map_of (params (fst (ru_get_route_leaks process_data m rself kw))) name
        = map_of (params rself) name) \<and>
   (distinct (keys kw) \<and> (k, v) \<in> set kw \<and> map snd (pfx_data self) = s # ss \<and> m \<le> length s \<and>
    k \<in> set (keys (params self)) \<longrightarrow>
      map_of (params (fst (get_route_leaks m self kw))) k = Some (val v)) \<and>
   (distinct (keys kw) \<and> (k, v) \<in> set kw \<and> map snd (pfx_data rself) = rs # rss \<and>
    m \<le> length rs \<and> k \<in> set (keys (params rself)) \<longrightarrow>
      map_of (params (fst (ru_get_route_leaks process_data m rself kw))) k = Some (val v))"
proof -
  have a: "params (fst (get_route_leaks m self [])) = params self"
    by (simp add: fst_get_route_leaks split: list.splits)
  have b: "params (fst (ru_get_route_leaks process_data m rself [])) = params rself"
    by (simp add: fst_ru_get_route_leaks split: list.splits)
  have c: "keys (params (fst (get_route_leaks m self kw))) = keys (params self)"
    by (simp add: fst_get_route_leaks keys_fold_set_known_param split: list.splits)
  have d: "keys (params (fst (ru_get_route_leaks process_data m rself kw))) = keys (params rself)"
    by (simp add: fst_ru_get_route_leaks keys_fold_set_known_param split: list.splits)
  have e: "pfx_data (fst (get_route_leaks m self kw)) = pfx_data self"
    "cfl_data (fst (get_route_leaks m self kw)) = cfl_data self"
    by (simp_all add: fst_get_route_leaks split: list.splits)
  have f: "pfx_data (fst (ru_get_route_leaks process_data m rself kw)) = pfx_data rself"
    "cfl_data (fst (ru_get_route_leaks process_data m rself kw)) = cfl_data rself"
    by (simp_all add: fst_ru_get_route_leaks split: list.splits)
  have g: "name \<notin> set (keys kw) \<longrightarrow>
      map_of (params (fst (get_route_leaks m self kw))) name = map_of (params self) name \<and>
      map_of (params (fst (ru_get_route_leaks process_data m rself kw))) name
        = map_of (params rself) name"
    by (simp add: fst_get_route_leaks fst_ru_get_route_leaks map_of_fold_set_known_param
        split: list.splits)
  have h: "distinct (keys kw) \<and> (k, v) \<in> set kw \<and> map snd (pfx_data self) = s # ss \<and>
      m \<le> length s \<and> k \<in> set (keys (params self)) \<longrightarrow>
      map_of (params (fst (get_route_leaks m self kw))) k = Some (val v)"
    by (simp add: fst_get_route_leaks map_of_fold_set_known_param_named keys_def)
  have i: "distinct (keys kw) \<and> (k, v) \<in> set kw \<and> map snd (pfx_data rself) = rs # rss \<and>
      m \<le> length rs \<and> k \<in> set (keys (params rself)) \<longrightarrow>
      map_of (params (fst (ru_get_route_leaks process_data m rself kw))) k = Some (val v)"
    by (simp add: fst_ru_get_route_leaks map_of_fold_set_known_param_named keys_def)
  from a b c d e f g h i show ?thesis by simp
qed

theorem detection_overwrites_named_params_witness:
  "map_of (params (fst (get_route_leaks MIN_NB_DAYS flat31_detector
       [(''pfx_peak_min_value'', PInt 100), (''cfl_peak_min_value'', PInt 50)])))
     ''percent_std'' = Some (9 / 10) \<and>
   map_of (params (fst (get_route_leaks MIN_NB_DAYS flat31_detector
       [(''pfx_peak_min_value'', PInt 100), (''cfl_peak_min_value'', PInt 50)])))
     ''cfl_peak_min_value'' = Some 50 \<and>
   map_of (params (fst (ru_get_route_leaks no_leak_process_data MIN_NB_DAYS flat31_ru_detector
       [(''pfx_peak_min_value'', PInt 100), (''cfl_peak_min_value'', PInt 50)])))
     ''cfl_peak_min_value'' = Some 50"
  using detection_overwrites_named_params [of MIN_NB_DAYS flat31_detector no_leak_process_data
      flat31_ru_detector "[(''pfx_peak_min_value'', PInt 100), (''cfl_peak_min_value'', PInt 50)]"
      "''percent_std''" "''cfl_peak_min_value''" "PInt 50"
      "replicate 31 (PInt 0)" "[]" "replicate 31 (PInt 0)" "[]"]
  by (simp add: keys_def flat31_detector_def flat31_ru_detector_def flat31_store_def
      MIN_NB_DAYS_def default_params_def init_params_def)

text \<open>
  C9 as stated fails: on the detector built from a store of one AS with 31 days of zeros
  and the default parameters, the call \<open>get_route_leaks(pfx_peak_min_value=100)\<close> returns
  the empty result and leaves \<open>pfx_peak_min_value\<close> at 100 instead of 10, in the Python
  detector as in the one backed by the Rust library.
\<close>

theorem detector_keeps_params_counterexample:
  "PyFindRouteLeaks_init flat31_store flat31_store (PInt 10) (PInt 5) (PInt 2)
     (PFloat (9 / 10)) (PFloat (9 / 10)) None = Inr flat31_detector \<and>
   snd (get_route_leaks MIN_NB_DAYS flat31_detector [(''pfx_peak_min_value'', PInt 100)]) = Inr [] \<and>
   params (fst (get_route_leaks MIN_NB_DAYS flat31_detector [(''pfx_peak_min_value'', PInt 100)]))
     \<noteq> params flat31_detector \<and>
   dict_get (params flat31_detector) ''pfx_peak_min_value'' = Inr 10 \<and>
   dict_get (params (fst (get_route_leaks MIN_NB_DAYS flat31_detector
       [(''pfx_peak_min_value'', PInt 100)]))) ''pfx_peak_min_value'' = Inr 100 \<and>
   RuFindRouteLeaks_init flat31_store flat31_store (PInt 10) (PInt 5) (PInt 2)
     (PFloat (9 / 10)) (PFloat (9 / 10)) None = Inr flat31_ru_detector \<and>
   params (fst (ru_get_route_leaks no_leak_process_data MIN_NB_DAYS flat31_ru_detector
       [(''pfx_peak_min_value'', PInt 100)])) \<noteq> params flat31_ru_detector"
  by (simp add: flat31_init flat31_ru_init flat31_returns flat31_changed flat31_ru_changed
      dict_get_def)
     (simp add: flat31_detector_def flat31_ru_detector_def default_params_def init_params_def)

text \<open>
  C10. On a detector whose prefix store is empty, \<open>get_route_leaks\<close> raises \<open>IndexError\<close>
  whatever the threshold and the keyword arguments, and leaves the detector as it is: the
  length guard reads the first series of the prefix store before anything else. The
  Python detector and the one backed by the Rust library do the same.
\<close>

theorem empty_prefix_store_raises:
  assumes "pfx_data self = []" and "pfx_data rself = []"
  shows "get_route_leaks m self kw = (self, Inl IndexError) \<and>
     ru_get_route_leaks process_data m rself kw = (rself, Inl IndexError)"
  using assms by (simp add: get_route_leaks_def ru_get_route_leaks_def)

theorem empty_prefix_store_raises_witness:
  "PyFindRouteLeaks_init [] [] (PInt 10) (PInt 5) (PInt 2)
     (PFloat (9 / 10)) (PFloat (9 / 10)) None = Inr empty_detector \<and>
   RuFindRouteLeaks_init [] [] (PInt 10) (PInt 5) (PInt 2)
     (PFloat (9 / 10)) (PFloat (9 / 10)) None = Inr empty_ru_detector \<and>
   get_route_leaks MIN_NB_DAYS empty_detector [] = (empty_detector, Inl IndexError) \<and>
   ru_get_route_leaks no_leak_process_data MIN_NB_DAYS empty_ru_detector []
     = (empty_ru_detector, Inl IndexError)"
proof -
  have a: "pfx_data empty_detector = []" by (simp add: empty_detector_def)
  have b: "pfx_data empty_ru_detector = []" by (simp add: empty_ru_detector_def)
  from empty_prefix_store_raises [OF a b, of MIN_NB_DAYS "[]" no_leak_process_data] empty_init empty_ru_init
  show ?thesis by simp
qed

section \<open>The claim about the parameter fitter\<close>

text \<open>
  C7. Let \<open>(i1, i2)\<close> be the breaking points of the best fit on the grid of a parameter,
  so that the two candidate values are the grid values at \<open>i1\<close> and \<open>i2\<close> (grid positions
  count from 1). For \<open>percent_std\<close> the fitter returns the value of the second breaking
  point whatever the \<open>selective_index\<close> of the selector object (its class declares 0). For
  \<open>pfx_peak_min_value\<close>, \<open>cfl_peak_min_value\<close> and \<open>percent_similarity\<close> the class declares
  \<open>selective_index = 1\<close> and the fitter returns the value of the second breaking point; for
  \<open>max_nb_peaks\<close> the class declares 0 and the fitter returns the value of the first. (For
  each of the five parameters and every score the best fit exists: \<open>fitter_returns\<close>.)
\<close>

theorem fitter_breakpoint_choice:
  assumes grid: "dict_get lr_points param = Inr pts"
    and best: "best_case lr_score pts = Inr (sc, i1, i2)"
  shows "(param = ''percent_std'' \<longrightarrow>
            best_value_of lr_score \<lparr>param_name = param, selective_index = si\<rparr> param
              = Inr (pts ! (i2 - 1)) \<and>
            ParamValue_new param = Inr \<lparr>param_name = param, selective_index = 0\<rparr> \<and>
            get_best_param_value lr_score param = Inr (pts ! (i2 - 1))) \<and>
         (param = ''pfx_peak_min_value'' \<or> param = ''cfl_peak_min_value''
            \<or> param = ''percent_similarity'' \<longrightarrow>
            ParamValue_new param = Inr \<lparr>param_name = param, selective_index = 1\<rparr> \<and>
            get_best_param_value lr_score param = Inr (pts ! (i2 - 1))) \<and>
         (param = ''max_nb_peaks'' \<longrightarrow>
            ParamValue_new param = Inr \<lparr>param_name = param, selective_index = 0\<rparr> \<and>
            get_best_param_value lr_score param = Inr (pts ! (i1 - 1)))"
proof -
  have g: "\<And>si. dict_get lr_points (param_name \<lparr>param_name = param, selective_index = si\<rparr>) = Inr pts"
    using grid by simp
  have std: "param = ''percent_std'' \<Longrightarrow>
      best_value_of lr_score \<lparr>param_name = param, selective_index = si\<rparr> param = Inr (pts ! (i2 - 1))"
    for si using best_value_of_std [OF g best] by simp
  have second: "param \<noteq> ''percent_std'' \<Longrightarrow>
      best_value_of lr_score \<lparr>param_name = param, selective_index = 1\<rparr> param = Inr (pts ! (i2 - 1))"
    using best_value_of_second [OF g best] by simp
  have first: "param \<noteq> ''percent_std'' \<Longrightarrow>
      best_value_of lr_score \<lparr>param_name = param, selective_index = 0\<rparr> param = Inr (pts ! (i1 - 1))"
    using best_value_of_first [OF g best] by simp
  have a: "param = ''percent_std'' \<longrightarrow>
            best_value_of lr_score \<lparr>param_name = param, selective_index = si\<rparr> param
              = Inr (pts ! (i2 - 1)) \<and>
            ParamValue_new param = Inr \<lparr>param_name = param, selective_index = 0\<rparr> \<and>
            get_best_param_value lr_score param = Inr (pts ! (i2 - 1))"
    using std [of si] std [of 0] by (auto simp: get_best_param_value_def ParamValue_new_eqs)
  have b: "param = ''pfx_peak_min_value'' \<or> param = ''cfl_peak_min_value''
            \<or> param = ''percent_similarity'' \<longrightarrow>
            ParamValue_new param = Inr \<lparr>param_name = param, selective_index = 1\<rparr> \<and>
            get_best_param_value lr_score param = Inr (pts ! (i2 - 1))"
    using second by (auto simp: get_best_param_value_def ParamValue_new_eqs)
  have c: "param = ''max_nb_peaks'' \<longrightarrow>
            ParamValue_new param = Inr \<lparr>param_name = param, selective_index = 0\<rparr> \<and>
            get_best_param_value lr_score param = Inr (pts ! (i1 - 1))"
    using first by (auto simp: get_best_param_value_def ParamValue_new_eqs)
  from a b c show ?thesis by blast
qed

theorem fitter_breakpoint_choice_witness:
  "get_best_param_value flat_score ''percent_std'' = Inr (1 / 2) \<and>
   best_value_of flat_score \<lparr>param_name = ''percent_std'', selective_index = 1\<rparr> ''percent_std''
     = Inr (1 / 2) \<and>
   get_best_param_value flat_score ''pfx_peak_min_value'' = Inr 4 \<and>
   get_best_param_value flat_score ''max_nb_peaks'' = Inr 3"
proof -
  have s: "best_case flat_score (map (\<lambda>elt. real elt / 10) [1..<11]) = Inr (1, 3, 5)"
    by (rule best_case_flat) simp
  have p: "best_case flat_score (map real [0..<50]) = Inr (1, 3, 5)"
    by (rule best_case_flat) simp
  have n: "best_case flat_score (map real [1..<51]) = Inr (1, 3, 5)"
    by (rule best_case_flat) simp
  from fitter_breakpoint_choice [OF lr_points_grids(3) s, of 1]
    fitter_breakpoint_choice [OF lr_points_grids(2) p]
    fitter_breakpoint_choice [OF lr_points_grids(5) n]
  show ?thesis by simp
qed

section \<open>The claim about the feature extraction\<close>



end
